theory Spec2Isabelle
  imports Main "HOL-Library.AList"
begin

section \<open>Strings\<close>

text \<open>
  A JavaScript string is modelled as a \<^typ>\<open>string\<close> holding its UTF-8 bytes.
  \<^verbatim>\<open>String.prototype.trim\<close>, \<^verbatim>\<open>toLowerCase\<close> and \<^verbatim>\<open>toUpperCase\<close> are built into
  the language and defined by ECMAScript over all of Unicode (white space beyond ASCII,
  case mappings that change a string's length). They are parameters of every function
  that calls them, so what is proved holds for the library as it is, on every string.
\<close>

record js_string_api =
  js_trim :: "string \<Rightarrow> string"
  js_toLowerCase :: "string \<Rightarrow> string"
  js_toUpperCase :: "string \<Rightarrow> string"

text \<open>
  What the three functions do on a string of ASCII characters, for the examples. In a
  letter's code bit 5 (value 32) tells the case: clearing it in a code from 97 to 122
  subtracts 32, setting it in a code from 65 to 90 adds 32. The ASCII white space is tab,
  line feed, vertical tab, form feed, carriage return and space. The examples apply
  \<open>ascii_strings\<close> to ASCII strings only.
\<close>

definition to_upper_char :: "char \<Rightarrow> char" where
  "to_upper_char c =
     (if 97 \<le> (of_char c :: nat) \<and> (of_char c :: nat) \<le> 122
      then (case c of Char b0 b1 b2 b3 b4 b5 b6 b7 \<Rightarrow> Char b0 b1 b2 b3 b4 False b6 b7)
      else c)"

definition to_lower_char :: "char \<Rightarrow> char" where
  "to_lower_char c =
     (if 65 \<le> (of_char c :: nat) \<and> (of_char c :: nat) \<le> 90
      then (case c of Char b0 b1 b2 b3 b4 b5 b6 b7 \<Rightarrow> Char b0 b1 b2 b3 b4 True b6 b7)
      else c)"

definition is_white_space :: "char \<Rightarrow> bool" where
  "is_white_space c = ((of_char c :: nat) \<in> {9, 10, 11, 12, 13, 32})"

definition ascii_trim :: "string \<Rightarrow> string" where
  "ascii_trim s = rev (dropWhile is_white_space (rev (dropWhile is_white_space s)))"

definition ascii_strings :: js_string_api where
  "ascii_strings =
     \<lparr>js_trim = ascii_trim, js_toLowerCase = map to_lower_char,
      js_toUpperCase = map to_upper_char\<rparr>"

text \<open>
  \<^verbatim>\<open>new TextEncoder().encode(value).length\<close>: the number of UTF-8 bytes of the value,
  which is the length of the string that models it.
\<close>

definition utf8_byte_length :: "string \<Rightarrow> int" where
  "utf8_byte_length v = int (length v)"

section \<open>Secrets validation (\<^verbatim>\<open>secrets-validation.ts\<close>)\<close>

definition normalizeKey :: "js_string_api \<Rightarrow> string \<Rightarrow> string" where
  "normalizeKey lib key = js_toUpperCase lib key"

text \<open>
  A \<^verbatim>\<open>Record<string, string>\<close> is the list of its entries in \<^verbatim>\<open>Object.entries\<close>
  order. \<^verbatim>\<open>merged[k] = value\<close> overwrites the value of a key the object already has and
  adds the key otherwise, which is \<^const>\<open>AList.update\<close>. (The library's \<^verbatim>\<open>toUpperCase\<close>
  returns no lower-case ASCII letter, so the key assigned is never \<^verbatim>\<open>__proto__\<close>.)
\<close>

type_synonym js_record = "(string \<times> string) list"

fun assign_normalized :: "js_string_api \<Rightarrow> js_record \<Rightarrow> js_record \<Rightarrow> js_record" where
  "assign_normalized lib merged [] = merged"
| "assign_normalized lib merged ((key, v) # entries) =
     assign_normalized lib (AList.update (normalizeKey lib key) v merged) entries"

fun add_value_bytes :: "int \<Rightarrow> string list \<Rightarrow> int" where
  "add_value_bytes totalBytes [] = totalBytes"
| "add_value_bytes totalBytes (v # vs) = add_value_bytes (totalBytes + utf8_byte_length v) vs"

record merge_result =
  merged :: js_record
  totalBytes :: int
  exceedsLimit :: bool

text \<open>The third argument is optional in the source; \<^const>\<open>None\<close> is its absence.\<close>

definition mergeSecrets ::
  "js_string_api \<Rightarrow> js_record \<Rightarrow> js_record \<Rightarrow> int option \<Rightarrow> merge_result" where
  "mergeSecrets lib global repo maxArg =
     (let maxCombinedBytes = (case maxArg of None \<Rightarrow> 131072 | Some m \<Rightarrow> m);
          merged0 = assign_normalized lib [] global;
          merged1 = assign_normalized lib merged0 repo;
          total = add_value_bytes 0 (map snd merged1)
      in \<lparr>merged = merged1, totalBytes = total, exceedsLimit = (total > maxCombinedBytes)\<rparr>)"

text \<open>
  The entries of a record with the library's \<^verbatim>\<open>toUpperCase\<close> applied to every key: what
  the merged record is compared with.
\<close>

definition upper_case_entries :: "js_string_api \<Rightarrow> js_record \<Rightarrow> js_record" where
  "upper_case_entries lib entries = map (\<lambda>(k, v). (js_toUpperCase lib k, v)) entries"

section \<open>Numbers and \<^verbatim>\<open>parseInt\<close>\<close>

text \<open>
  A JavaScript number that \<^verbatim>\<open>parseInt\<close> can return is an integer or \<^verbatim>\<open>NaN\<close>.
  (Beyond \<open>2\<^sup>5\<^sup>3\<close> the source rounds to a double; such a value stays above every
  bound used here, so the integer is kept exact.) A comparison with \<^verbatim>\<open>NaN\<close> is false,
  and \<^verbatim>\<open>Math.min\<close> of \<^verbatim>\<open>NaN\<close> and anything is \<^verbatim>\<open>NaN\<close>.
\<close>

datatype js_number = NaN | Num int

fun js_le :: "js_number \<Rightarrow> js_number \<Rightarrow> bool" where
  "js_le (Num x) (Num y) = (x \<le> y)"
| "js_le _ _ = False"

fun js_gt :: "js_number \<Rightarrow> js_number \<Rightarrow> bool" where
  "js_gt (Num x) (Num y) = (x > y)"
| "js_gt _ _ = False"

fun Math_min :: "js_number \<Rightarrow> js_number \<Rightarrow> js_number" where
  "Math_min (Num x) (Num y) = Num (min x y)"
| "Math_min _ _ = NaN"

definition digit_value :: "char \<Rightarrow> nat option" where
  "digit_value c =
     (let n = (of_char c :: nat) in
      if 48 \<le> n \<and> n \<le> 57 then Some (n - 48)
      else if 97 \<le> n \<and> n \<le> 122 then Some (n - 87)
      else if 65 \<le> n \<and> n \<le> 90 then Some (n - 55)
      else None)"

definition radix_digit :: "nat \<Rightarrow> char \<Rightarrow> nat option" where
  "radix_digit R c =
     (case digit_value c of None \<Rightarrow> None | Some d \<Rightarrow> if d < R then Some d else None)"

text \<open>The value of the longest prefix of radix-\<open>R\<close> digits.\<close>

fun digits_value :: "nat \<Rightarrow> nat \<Rightarrow> string \<Rightarrow> nat" where
  "digits_value R acc [] = acc"
| "digits_value R acc (c # cs) =
     (case radix_digit R c of None \<Rightarrow> acc | Some d \<Rightarrow> digits_value R (acc * R + d) cs)"

text \<open>
  \<^verbatim>\<open>parseInt(string)\<close> with no radix (ECMAScript, \<^verbatim>\<open>parseInt\<close>): skip the leading white
  space, read a sign, read a \<^verbatim>\<open>0x\<close> or \<^verbatim>\<open>0X\<close> prefix (radix 16, else 10), take the
  longest prefix of digits; no digit gives \<^verbatim>\<open>NaN\<close>.
\<close>

definition parseInt :: "string \<Rightarrow> js_number" where
  "parseInt inputString =
     (let S = dropWhile is_white_space inputString;
          sign = (if take 1 S = ''-'' then - 1 else 1 :: int);
          S1 = (if take 1 S = ''+'' \<or> take 1 S = ''-'' then drop 1 S else S);
          stripPrefix = (take 2 S1 = ''0x'' \<or> take 2 S1 = ''0X'');
          R = (if stripPrefix then 16 else 10);
          S2 = (if stripPrefix then drop 2 S1 else S1)
      in case S2 of
           [] \<Rightarrow> NaN
         | c # _ \<Rightarrow>
             (case radix_digit R c of
                None \<Rightarrow> NaN
              | Some _ \<Rightarrow> Num (sign * int (digits_value R 0 S2))))"

section \<open>Listing events and messages (\<^verbatim>\<open>internal-routes.ts\<close>)\<close>

text \<open>
  \<^verbatim>\<open>url.searchParams.get\<close> is a map from a parameter's name to its first value. The
  handlers are modelled up to their call of the repository: the result is the 400
  response (its error text) or the query handed to \<^verbatim>\<open>repository.listEvents\<close> or
  \<^verbatim>\<open>repository.listMessages\<close>.
\<close>

definition VALID_EVENT_TYPES :: "string list" where
  "VALID_EVENT_TYPES =
     [''tool_call'', ''tool_result'', ''token'', ''error'', ''git_sync'', ''execution_complete'',
      ''heartbeat'', ''push_complete'', ''push_error'', ''user_message'']"

definition VALID_MESSAGE_STATUSES :: "string list" where
  "VALID_MESSAGE_STATUSES = [''pending'', ''processing'', ''completed'', ''failed'']"

record list_events_query =
  le_cursor :: "string option"
  le_limit :: js_number
  le_type :: "string option"
  le_messageId :: "string option"

record list_messages_query =
  lm_cursor :: "string option"
  lm_limit :: js_number
  lm_status :: "string option"

text \<open>A string is truthy when it is present and not empty.\<close>

definition truthy :: "string option \<Rightarrow> bool" where
  "truthy x = (case x of None \<Rightarrow> False | Some v \<Rightarrow> v \<noteq> [])"

definition handleListEvents :: "(string \<rightharpoonup> string) \<Rightarrow> string + list_events_query" where
  "handleListEvents searchParams =
     (let cursor = searchParams ''cursor'';
          limit = Math_min (parseInt (case searchParams ''limit'' of None \<Rightarrow> ''50'' | Some l \<Rightarrow> l))
                    (Num 200);
          type = searchParams ''type'';
          messageId = searchParams ''message_id''
      in if truthy type \<and> the type \<notin> set VALID_EVENT_TYPES
         then Inl (''Invalid event type: '' @ the type)
         else Inr \<lparr>le_cursor = cursor, le_limit = limit, le_type = type,
                   le_messageId = messageId\<rparr>)"

definition handleListMessages :: "(string \<rightharpoonup> string) \<Rightarrow> string + list_messages_query" where
  "handleListMessages searchParams =
     (let cursor = searchParams ''cursor'';
          limit = Math_min (parseInt (case searchParams ''limit'' of None \<Rightarrow> ''50'' | Some l \<Rightarrow> l))
                    (Num 100);
          status = searchParams ''status''
      in if truthy status \<and> the status \<notin> set VALID_MESSAGE_STATUSES
         then Inl (''Invalid message status: '' @ the status)
         else Inr \<lparr>lm_cursor = cursor, lm_limit = limit, lm_status = status\<rparr>)"

section \<open>The session's data\<close>

text \<open>
  The rows of the session's tables, with the columns that the handlers below read or
  write, and the state of one session actor: its tables, the sandbox socket of the
  connection registry, the pending push resolvers, and the trace of what the handlers
  have sent out (broadcasts to the clients, commands to the sandbox, calls of the
  lifecycle manager and of the callback channel, settled push promises).
\<close>

datatype message_status = Pending | Processing | Completed | Failed

record message_row =
  m_id :: string
  m_author_id :: string
  m_content :: string
  m_source :: string
  m_model :: "string option"
  m_reasoning_effort :: "string option"
  m_attachments :: "string option"
  m_callback_context :: "string option"
  m_status :: message_status
  m_created_at :: int
  m_started_at :: "int option"
  m_completed_at :: "int option"

text \<open>
  A sandbox event is the parsed JSON frame. \<^const>\<open>None\<close> in an optional field is an
  absent, \<^verbatim>\<open>null\<close> or \<^verbatim>\<open>undefined\<close> property. The payload fields that no branch
  reads (sandbox id, timestamp, content) are left out.
\<close>

record sandbox_event =
  ev_type :: string
  ev_messageId :: "string option"
  ev_success :: bool
  ev_status :: string
  ev_sha :: "string option"
  ev_branchName :: "string option"
  ev_error :: "string option"

record event_row =
  e_id :: string
  e_type :: string
  e_data :: sandbox_event
  e_message_id :: "string option"
  e_created_at :: int

datatype json =
  JNull | JBool bool | JNum int | JStr string | JArr "json list" | JObj "(string \<times> json) list"

text \<open>
  The \<^verbatim>\<open>metadata\<close> column of an artifact is a text: \<^const>\<open>None\<close> when it is
  \<^verbatim>\<open>null\<close>, \<open>Some None\<close> when it is a text that \<^verbatim>\<open>JSON.parse\<close> rejects or the empty
  text, and \<open>Some (Some j)\<close> when it is the text of the JSON value \<open>j\<close>, as
  \<^verbatim>\<open>JSON.stringify\<close> writes it.
\<close>

record artifact_row =
  a_id :: string
  a_type :: string
  a_url :: "string option"
  a_metadata :: "json option option"
  a_created_at :: int

record participant_row =
  p_id :: string
  p_user_id :: string
  p_github_login :: "string option"
  p_github_name :: "string option"
  p_github_email :: "string option"
  p_github_access_token_encrypted :: "string option"
  p_github_refresh_token_encrypted :: "string option"
  p_github_token_expires_at :: "int option"

record session_row =
  s_id :: string
  s_session_name :: "string option"
  s_repo_owner :: string
  s_repo_name :: string
  s_branch_name :: "string option"
  s_current_sha :: "string option"
  s_model :: "string option"
  s_reasoning_effort :: "string option"

record sandbox_row =
  sb_id :: string
  sb_status :: string
  sb_git_sync_status :: string
  sb_last_heartbeat :: "int option"

record prompt_command =
  pc_messageId :: string
  pc_content :: string
  pc_model :: string
  pc_reasoningEffort :: "string option"
  pc_userId :: string
  pc_githubName :: "string option"
  pc_githubEmail :: "string option"
  pc_attachments :: "string option"

record git_push_spec =
  gp_owner :: string
  gp_name :: string
  gp_sourceRef :: string
  gp_targetBranch :: string
  gp_token :: string
  gp_force :: bool

datatype sandbox_command = Prompt prompt_command | Stop | Push git_push_spec

datatype server_message =
    Sandbox_event sandbox_event
  | Processing_status bool
  | Sandbox_spawning
  | Artifact_created string string string "int option"

text \<open>
  A pending push is known by the number of the call of \<^verbatim>\<open>pushBranchToRemote\<close> whose
  promise the resolver settles.
\<close>

datatype effect =
    Broadcast server_message
  | Send_sandbox sandbox_command
  | Notify_slack_bot string bool
  | Trigger_snapshot string
  | Update_last_activity int
  | Schedule_inactivity_check
  | Spawn_sandbox
  | Resolve_push nat
  | Reject_push nat string

record session_state =
  messages :: "message_row list"
  events :: "event_row list"
  artifacts :: "artifact_row list"
  participants :: "participant_row list"
  session :: "session_row option"
  sandbox :: "sandbox_row option"
  sandbox_socket :: "nat option"
  pendingPushResolvers :: "string \<rightharpoonup> nat"
  effects :: "effect list"

definition emit :: "effect list \<Rightarrow> session_state \<Rightarrow> session_state" where
  "emit es s = s\<lparr>effects := effects s @ es\<rparr>"

section \<open>The repository\<close>

text \<open>
  Modelled from the spec: the repository (\<^verbatim>\<open>SessionRepository\<close> in
  \<^verbatim>\<open>session/repository.ts\<close>) is not among the sources. The spec (sections 2 to 4) has it
  as row-level reads and writes over the session's tables: the processing message is the
  message whose status is processing, the next pending message is the oldest pending one
  in creation order, a status update changes the row with the given id and sets its
  started or completed time stamp, and events, messages and artifacts are appended.
  The tables are lists in creation order.
\<close>

definition getProcessingMessage :: "session_state \<Rightarrow> message_row option" where
  "getProcessingMessage s = find (\<lambda>m. m_status m = Processing) (messages s)"

definition getNextPendingMessage :: "session_state \<Rightarrow> message_row option" where
  "getNextPendingMessage s = find (\<lambda>m. m_status m = Pending) (messages s)"

definition updateMessageToProcessing :: "string \<Rightarrow> int \<Rightarrow> session_state \<Rightarrow> session_state" where
  "updateMessageToProcessing messageId now s =
     s\<lparr>messages := map (\<lambda>m. if m_id m = messageId
                               then m\<lparr>m_status := Processing, m_started_at := Some now\<rparr>
                               else m) (messages s)\<rparr>"

definition updateMessageCompletion ::
  "string \<Rightarrow> message_status \<Rightarrow> int \<Rightarrow> session_state \<Rightarrow> session_state" where
  "updateMessageCompletion messageId status now s =
     s\<lparr>messages := map (\<lambda>m. if m_id m = messageId
                               then m\<lparr>m_status := status, m_completed_at := Some now\<rparr>
                               else m) (messages s)\<rparr>"

definition createMessage :: "message_row \<Rightarrow> session_state \<Rightarrow> session_state" where
  "createMessage row s = s\<lparr>messages := messages s @ [row]\<rparr>"

definition createEvent :: "event_row \<Rightarrow> session_state \<Rightarrow> session_state" where
  "createEvent row s = s\<lparr>events := events s @ [row]\<rparr>"

definition createArtifact :: "artifact_row \<Rightarrow> session_state \<Rightarrow> session_state" where
  "createArtifact row s = s\<lparr>artifacts := artifacts s @ [row]\<rparr>"

definition listArtifacts :: "session_state \<Rightarrow> artifact_row list" where
  "listArtifacts s = artifacts s"

definition getParticipantById :: "string \<Rightarrow> session_state \<Rightarrow> participant_row option" where
  "getParticipantById participantId s = find (\<lambda>p. p_id p = participantId) (participants s)"

definition getSession :: "session_state \<Rightarrow> session_row option" where
  "getSession s = session s"

definition updateSandboxHeartbeat :: "int \<Rightarrow> session_state \<Rightarrow> session_state" where
  "updateSandboxHeartbeat now s =
     s\<lparr>sandbox := map_option (\<lambda>sb. sb\<lparr>sb_last_heartbeat := Some now\<rparr>) (sandbox s)\<rparr>"

definition updateSandboxGitSyncStatus :: "string \<Rightarrow> session_state \<Rightarrow> session_state" where
  "updateSandboxGitSyncStatus status s =
     s\<lparr>sandbox := map_option (\<lambda>sb. sb\<lparr>sb_git_sync_status := status\<rparr>) (sandbox s)\<rparr>"

definition updateSessionCurrentSha :: "string \<Rightarrow> session_state \<Rightarrow> session_state" where
  "updateSessionCurrentSha sha s =
     s\<lparr>session := map_option (\<lambda>r. r\<lparr>s_current_sha := Some sha\<rparr>) (session s)\<rparr>"

definition updateSessionBranch :: "string \<Rightarrow> string \<Rightarrow> session_state \<Rightarrow> session_state" where
  "updateSessionBranch sessionId branch s =
     s\<lparr>session := map_option (\<lambda>r. if s_id r = sessionId then r\<lparr>s_branch_name := Some branch\<rparr>
                                         else r) (session s)\<rparr>"

section \<open>Queue processing and sandbox events (\<^verbatim>\<open>sandbox-handler.ts\<close>)\<close>

text \<open>
  The model table of \<^verbatim>\<open>utils/models.ts\<close> is not among the sources; its functions
  are parameters. \<^verbatim>\<open>Date.now()\<close> and \<^verbatim>\<open>generateId()\<close> are arguments of the
  function that calls them. Logging is left out.
\<close>

record models_api =
  DEFAULT_MODEL :: string
  isValidModel :: "string \<Rightarrow> bool"
  isValidReasoningEffort :: "string \<Rightarrow> string \<Rightarrow> bool"
  getValidModelOrDefault :: "string option \<Rightarrow> string"
  getDefaultReasoningEffort :: "string \<Rightarrow> string option"

text \<open>\<^verbatim>\<open>a || b\<close> and \<^verbatim>\<open>a ?? b\<close> on optional strings.\<close>

definition js_or :: "string option \<Rightarrow> string option \<Rightarrow> string option" where
  "js_or a b = (if truthy a then a else b)"

definition nullish :: "'a option \<Rightarrow> 'a option \<Rightarrow> 'a option" where
  "nullish a b = (case a of Some v \<Rightarrow> Some v | None \<Rightarrow> b)"

definition processMessageQueue :: "models_api \<Rightarrow> int \<Rightarrow> session_state \<Rightarrow> session_state" where
  "processMessageQueue api now s =
     (case getProcessingMessage s of
        Some _ \<Rightarrow> s
      | None \<Rightarrow>
         (case getNextPendingMessage s of
            None \<Rightarrow> s
          | Some message \<Rightarrow>
             (case sandbox_socket s of
                None \<Rightarrow> emit [Broadcast Sandbox_spawning, Spawn_sandbox] s
              | Some sandboxWs \<Rightarrow>
                 (let s1 = updateMessageToProcessing (m_id message) now s;
                      s2 = emit [Broadcast (Processing_status True), Update_last_activity now] s1;
                      author = getParticipantById (m_author_id message) s2;
                      session = getSession s2;
                      resolvedModel = getValidModelOrDefault api
                        (js_or (m_model message) (Option.bind session s_model));
                      resolvedEffort =
                        nullish (m_reasoning_effort message)
                          (nullish (Option.bind session s_reasoning_effort)
                             (getDefaultReasoningEffort api resolvedModel));
                      command = Prompt
                        \<lparr>pc_messageId = m_id message,
                         pc_content = m_content message,
                         pc_model = resolvedModel,
                         pc_reasoningEffort = resolvedEffort,
                         pc_userId = (case author of Some a \<Rightarrow> p_user_id a | None \<Rightarrow> ''unknown''),
                         pc_githubName = Option.bind author p_github_name,
                         pc_githubEmail = Option.bind author p_github_email,
                         pc_attachments = (if truthy (m_attachments message)
                                           then m_attachments message else None)\<rparr>
                  in emit [Send_sandbox command] s2))))"

text \<open>The synthetic event that \<^verbatim>\<open>stopExecution\<close> broadcasts.\<close>

definition synthetic_execution_complete :: "string \<Rightarrow> sandbox_event" where
  "synthetic_execution_complete messageId =
     \<lparr>ev_type = ''execution_complete'', ev_messageId = Some messageId, ev_success = False,
      ev_status = [], ev_sha = None, ev_branchName = None, ev_error = None\<rparr>"

definition stopExecution :: "int \<Rightarrow> session_state \<Rightarrow> session_state" where
  "stopExecution now s =
     (let s1 = (case getProcessingMessage s of
                  Some processingMessage \<Rightarrow>
                    emit [Broadcast (Sandbox_event
                            (synthetic_execution_complete (m_id processingMessage))),
                          Notify_slack_bot (m_id processingMessage) False]
                      (updateMessageCompletion (m_id processingMessage) Failed now s)
                | None \<Rightarrow> s);
          s2 = emit [Broadcast (Processing_status False)] s1
      in case sandbox_socket s2 of
           Some sandboxWs \<Rightarrow> emit [Send_sandbox Stop] s2
         | None \<Rightarrow> s2)"

definition normalizeBranchName :: "js_string_api \<Rightarrow> string \<Rightarrow> string" where
  "normalizeBranchName lib name = js_toLowerCase lib (js_trim lib name)"

definition handlePushEvent :: "js_string_api \<Rightarrow> sandbox_event \<Rightarrow> session_state \<Rightarrow> session_state" where
  "handlePushEvent lib event s =
     (if \<not> truthy (ev_branchName event) then s
      else
        let normalizedBranch = normalizeBranchName lib (the (ev_branchName event)) in
        case pendingPushResolvers s normalizedBranch of
          None \<Rightarrow> s
        | Some resolver \<Rightarrow>
           (let s1 =
              (if ev_type event = ''push_complete'' then emit [Resolve_push resolver] s
               else if ev_type event = ''push_error''
               then emit [Reject_push resolver
                            (if truthy (ev_error event) then the (ev_error event)
                             else ''Push failed'')] s
               else s)
            in s1\<lparr>pendingPushResolvers := (pendingPushResolvers s1)(normalizedBranch := None)\<rparr>))"

text \<open>
  \<^verbatim>\<open>processSandboxEvent\<close> up to its call of \<^verbatim>\<open>processMessageQueue\<close>: the handler
  awaits the lifecycle manager before that call, so another handler may run in between.
\<close>

definition processSandboxEvent_record ::
  "js_string_api \<Rightarrow> int \<Rightarrow> string \<Rightarrow> sandbox_event \<Rightarrow> session_state \<Rightarrow> session_state" where
  "processSandboxEvent_record lib now eventId event s =
     (if ev_type event = ''heartbeat'' then updateSandboxHeartbeat now s
      else
        let eventMessageId = ev_messageId event;
            processingMessage = getProcessingMessage s;
            messageId = nullish eventMessageId (map_option m_id processingMessage);
            s1 = createEvent \<lparr>e_id = eventId, e_type = ev_type event, e_data = event,
                              e_message_id = messageId, e_created_at = now\<rparr> s
        in if ev_type event = ''execution_complete'' then
             (let completionMessageId = messageId;
                  isStillProcessing =
                    (completionMessageId \<noteq> None
                     \<and> map_option m_id processingMessage = completionMessageId);
                  s2 = (if isStillProcessing then
                          let status = (if ev_success event then Completed else Failed);
                              s3 = updateMessageCompletion (the completionMessageId) status now s1;
                              s4 = emit [Broadcast (Sandbox_event event)] s3;
                              s5 = emit [Broadcast (Processing_status
                                                     (getProcessingMessage s4 \<noteq> None))] s4
                          in emit [Notify_slack_bot (the completionMessageId) (ev_success event)] s5
                        else s1)
              in emit [Trigger_snapshot ''execution_complete'', Update_last_activity now,
                       Schedule_inactivity_check] s2)
           else
             (let s2 = (if ev_type event = ''git_sync'' then
                          let s3 = updateSandboxGitSyncStatus (ev_status event) s1
                          in if truthy (ev_sha event)
                             then updateSessionCurrentSha (the (ev_sha event)) s3 else s3
                        else s1);
                  s3 = (if ev_type event = ''push_complete'' \<or> ev_type event = ''push_error''
                        then handlePushEvent lib event s2 else s2)
              in emit [Broadcast (Sandbox_event event)] s3))"

text \<open>The whole handler; \<open>queueNow\<close> is the clock read by \<^verbatim>\<open>processMessageQueue\<close>.\<close>

definition processSandboxEvent ::
  "js_string_api \<Rightarrow> models_api \<Rightarrow> int \<Rightarrow> string \<Rightarrow> int \<Rightarrow> sandbox_event \<Rightarrow> session_state \<Rightarrow> session_state" where
  "processSandboxEvent lib api now eventId queueNow event s =
     (let s1 = processSandboxEvent_record lib now eventId event s
      in if ev_type event = ''execution_complete'' then processMessageQueue api queueNow s1
         else s1)"

text \<open>
  \<^verbatim>\<open>pushBranchToRemote\<close> up to its \<^verbatim>\<open>await\<close>: the result when it returns at once,
  or no result yet and the resolver of call \<open>caller\<close> registered. The promise is settled
  later by \<^const>\<open>handlePushEvent\<close> or by the 180 second timer.
\<close>

datatype push_result = Push_success | Push_failure string

definition pushBranchToRemote ::
  "js_string_api \<Rightarrow> nat \<Rightarrow> string \<Rightarrow> git_push_spec \<Rightarrow> session_state \<Rightarrow> push_result option \<times> session_state" where
  "pushBranchToRemote lib caller branchName pushSpec s =
     (case sandbox_socket s of
        None \<Rightarrow> (Some Push_success, s)
      | Some sandboxWs \<Rightarrow>
         (let normalizedBranch = normalizeBranchName lib branchName;
              s1 = s\<lparr>pendingPushResolvers := (pendingPushResolvers s)(normalizedBranch \<mapsto> caller)\<rparr>
          in (None, emit [Send_sandbox (Push pushSpec)] s1)))"

definition pushBranchToRemote_timeout :: "js_string_api \<Rightarrow> nat \<Rightarrow> string \<Rightarrow> session_state \<Rightarrow> session_state" where
  "pushBranchToRemote_timeout lib caller branchName s =
     (let normalizedBranch = normalizeBranchName lib branchName in
      if pendingPushResolvers s normalizedBranch \<noteq> None
      then emit [Reject_push caller ''Push operation timed out after 180 seconds'']
             (s\<lparr>pendingPushResolvers := (pendingPushResolvers s)(normalizedBranch := None)\<rparr>)
      else s)"


section \<open>Enqueueing a prompt (\<^verbatim>\<open>internal-routes.ts\<close>, \<^verbatim>\<open>handler-context.ts\<close>)\<close>

record enqueue_body =
  b_content :: string
  b_authorId :: string
  b_source :: string
  b_model :: "string option"
  b_reasoningEffort :: "string option"
  b_attachments :: "string option"
  b_callbackContext :: "string option"

text \<open>
  Modelled from the spec: \<^verbatim>\<open>getParticipantByUserId\<close> and \<^verbatim>\<open>createParticipant\<close> of the
  repository, which is not among the sources; a participant is one row per user, looked
  up by the user's id and appended when created.
\<close>

definition getParticipantByUserId :: "string \<Rightarrow> session_state \<Rightarrow> participant_row option" where
  "getParticipantByUserId userId s = find (\<lambda>p. p_user_id p = userId) (participants s)"

definition createParticipantRecord ::
  "string \<Rightarrow> string \<Rightarrow> string \<Rightarrow> session_state \<Rightarrow> participant_row \<times> session_state" where
  "createParticipantRecord newId userId name s =
     (let row = \<lparr>p_id = newId, p_user_id = userId, p_github_login = None,
                 p_github_name = Some name, p_github_email = None,
                 p_github_access_token_encrypted = None,
                 p_github_refresh_token_encrypted = None,
                 p_github_token_expires_at = None\<rparr>
      in (row, s\<lparr>participants := participants s @ [row]\<rparr>))"

definition validateReasoningEffort :: "models_api \<Rightarrow> string \<Rightarrow> string option \<Rightarrow> string option" where
  "validateReasoningEffort api model effort =
     (if \<not> truthy effort then None
      else if isValidReasoningEffort api model (the effort) then effort
      else None)"

definition writeUserMessageEvent :: "string \<Rightarrow> string \<Rightarrow> int \<Rightarrow> session_state \<Rightarrow> session_state" where
  "writeUserMessageEvent eventId messageId now s =
     (let userMessageEvent =
            \<lparr>ev_type = ''user_message'', ev_messageId = Some messageId, ev_success = False,
             ev_status = [], ev_sha = None, ev_branchName = None, ev_error = None\<rparr>;
          s1 = createEvent \<lparr>e_id = eventId, e_type = ''user_message'', e_data = userMessageEvent,
                              e_message_id = Some messageId, e_created_at = now\<rparr> s
      in emit [Broadcast (Sandbox_event userMessageEvent)] s1)"

text \<open>
  \<^verbatim>\<open>handleEnqueuePrompt\<close> up to its call of \<^verbatim>\<open>processMessageQueue\<close>. The WebSocket
  handler \<^verbatim>\<open>handlePromptMessage\<close> stores its message in the same way.
\<close>

definition handleEnqueuePrompt_store ::
  "models_api \<Rightarrow> string \<Rightarrow> string \<Rightarrow> string \<Rightarrow> int \<Rightarrow> enqueue_body \<Rightarrow> session_state
     \<Rightarrow> session_state" where
  "handleEnqueuePrompt_store api participantId messageId eventId now body s =
     (let (participant, s1) =
            (case getParticipantByUserId (b_authorId body) s of
               Some p \<Rightarrow> (p, s)
             | None \<Rightarrow> createParticipantRecord participantId (b_authorId body) (b_authorId body) s);
          messageModel =
            (if truthy (b_model body) \<and> isValidModel api (the (b_model body))
             then b_model body else None);
          effectiveModelForEffort =
            the (js_or (js_or messageModel (Option.bind (getSession s1) s_model))
                   (Some (DEFAULT_MODEL api)));
          messageReasoningEffort =
            validateReasoningEffort api effectiveModelForEffort (b_reasoningEffort body);
          s2 = createMessage
                 \<lparr>m_id = messageId, m_author_id = p_id participant, m_content = b_content body,
                  m_source = b_source body, m_model = messageModel,
                  m_reasoning_effort = messageReasoningEffort,
                  m_attachments = b_attachments body,
                  m_callback_context = b_callbackContext body,
                  m_status = Pending, m_created_at = now, m_started_at = None,
                  m_completed_at = None\<rparr> s1
      in writeUserMessageEvent eventId messageId now s2)"

definition handleEnqueuePrompt ::
  "models_api \<Rightarrow> string \<Rightarrow> string \<Rightarrow> string \<Rightarrow> int \<Rightarrow> int \<Rightarrow> enqueue_body \<Rightarrow> session_state
     \<Rightarrow> session_state" where
  "handleEnqueuePrompt api participantId messageId eventId now queueNow body s =
     processMessageQueue api queueNow
       (handleEnqueuePrompt_store api participantId messageId eventId now body s)"

section \<open>Creating a pull request (\<^verbatim>\<open>internal-routes.ts\<close>)\<close>

text \<open>
  The source-control provider, the token encryption, the branch-name helpers of the shared
  package and the worker's environment are not among the sources: they are the fields of
  an environment. A call that may throw returns a sum, \<^const>\<open>Inl\<close> the error thrown.
\<close>

datatype thrown = Provider_error string "nat option" | Other_error string

record repo_info =
  ri_owner :: string
  ri_name :: string
  ri_defaultBranch :: string

record pr_result =
  pr_id :: int
  pr_webUrl :: string
  pr_state :: string

record pr_env =
  provider_name :: string
  generatePushAuth :: "thrown + string"
  getRepository :: "string \<Rightarrow> string \<Rightarrow> string \<Rightarrow> thrown + repo_info"
  buildGitPushSpec :: "string \<Rightarrow> string \<Rightarrow> string \<Rightarrow> string \<Rightarrow> string \<Rightarrow> bool \<Rightarrow> git_push_spec"
  createPullRequest ::
    "string \<Rightarrow> repo_info \<Rightarrow> string \<Rightarrow> string \<Rightarrow> string \<Rightarrow> string \<Rightarrow> thrown + pr_result"
  buildManualPullRequestUrl :: "string \<Rightarrow> string \<Rightarrow> string \<Rightarrow> string \<Rightarrow> string"
  generateBranchName :: "string \<Rightarrow> string"
  resolveHeadBranchForPr :: "string option \<Rightarrow> string option \<Rightarrow> string \<Rightarrow> string \<Rightarrow> string"
  decryptToken :: "string \<Rightarrow> string option"
  refreshedParticipant :: "participant_row \<Rightarrow> participant_row option"
  WEB_APP_URL :: "string option"
  WORKER_URL :: "string option"

record pr_body =
  pb_title :: string
  pb_body :: string
  pb_baseBranch :: "string option"
  pb_headBranch :: "string option"

datatype response =
    Json_error string nat
  | Json_manual string string string
  | Json_pr int string string

text \<open>What a handler keeps across its \<^verbatim>\<open>await\<close>s.\<close>

record pr_locals =
  l_session :: session_row
  l_sessionId :: string
  l_participant :: participant_row
  l_repoInfo :: repo_info
  l_baseBranch :: string
  l_headBranch :: string
  l_pushSpec :: git_push_spec

definition already_created :: response where
  "already_created = Json_error ''A pull request has already been created for this session.'' 409"

definition caught :: "thrown \<Rightarrow> response" where
  "caught e =
     (case e of
        Provider_error message httpStatus \<Rightarrow>
          Json_error message (case httpStatus of Some st \<Rightarrow> (if st = 0 then 500 else st)
                                               | None \<Rightarrow> 500)
      | Other_error message \<Rightarrow> Json_error message 500)"

text \<open>
  The repository's \<^verbatim>\<open>getProcessingMessageAuthor\<close> (modelled from the spec, which has the
  prompting user as the author of the processing message) is the author id of the
  processing message.
\<close>

definition getPromptingParticipantForPR :: "session_state \<Rightarrow> response + participant_row" where
  "getPromptingParticipantForPR s =
     (case getProcessingMessage s of
        None \<Rightarrow> Inl (Json_error
          ''No active prompt found. PR creation must be triggered by a user prompt.'' 400)
      | Some processingMessage \<Rightarrow>
         (case getParticipantById (m_author_id processingMessage) s of
            None \<Rightarrow> Inl (Json_error ''User not found. Please re-authenticate.'' 401)
          | Some participant \<Rightarrow> Inr participant))"

text \<open>
  The handler from its start to its call of \<^verbatim>\<open>pushBranchToRemote\<close>: the session, the
  prompting participant, the first check for a pull-request artifact, then the awaited
  calls of the provider, which do not touch the state.
\<close>

definition handleCreatePR_begin :: "pr_env \<Rightarrow> pr_body \<Rightarrow> session_state \<Rightarrow> response + pr_locals" where
  "handleCreatePR_begin env body s =
     (case getSession s of
        None \<Rightarrow> Inl (Json_error ''Session not found'' 404)
      | Some sess \<Rightarrow>
         (case getPromptingParticipantForPR s of
            Inl r \<Rightarrow> Inl r
          | Inr promptingParticipant \<Rightarrow>
             (let sessionId = the (js_or (s_session_name sess) (Some (s_id sess)));
                  generatedHeadBranch = generateBranchName env sessionId;
                  initialArtifacts = listArtifacts s
              in if find (\<lambda>artifact. a_type artifact = ''pr'') initialArtifacts \<noteq> None
                 then Inl already_created
                 else
                   (case generatePushAuth env of
                      Inl err \<Rightarrow>
                        Inl (Json_error
                               (case err of Provider_error message _ \<Rightarrow> message
                                | Other_error _ \<Rightarrow> ''Failed to generate push authentication'')
                               500)
                    | Inr token \<Rightarrow>
                       (case getRepository env token (s_repo_owner sess) (s_repo_name sess) of
                          Inl err \<Rightarrow> Inl (caught err)
                        | Inr repoInfo \<Rightarrow>
                           (let baseBranch = the (js_or (pb_baseBranch body)
                                                    (Some (ri_defaultBranch repoInfo)));
                                headBranch = resolveHeadBranchForPr env (pb_headBranch body)
                                               (s_branch_name sess) generatedHeadBranch baseBranch;
                                pushSpec = buildGitPushSpec env (s_repo_owner sess)
                                             (s_repo_name sess) ''HEAD'' headBranch token True
                            in Inr \<lparr>l_session = sess, l_sessionId = sessionId,
                                     l_participant = promptingParticipant,
                                     l_repoInfo = repoInfo, l_baseBranch = baseBranch,
                                     l_headBranch = headBranch, l_pushSpec = pushSpec\<rparr>))))))"

definition isGitHubTokenExpired :: "participant_row \<Rightarrow> int \<Rightarrow> bool" where
  "isGitHubTokenExpired participant now =
     (case p_github_token_expires_at participant of
        None \<Rightarrow> False
      | Some expires \<Rightarrow> if expires = 0 then False else now + 60000 \<ge> expires)"

text \<open>
  \<^verbatim>\<open>refreshParticipantToken\<close>: the environment tells the row that the refresh leaves in
  the table, or \<^const>\<open>None\<close> when there is no refresh token, no client credentials, or
  the refresh fails.
\<close>

definition refreshParticipantToken ::
  "pr_env \<Rightarrow> participant_row \<Rightarrow> session_state \<Rightarrow> participant_row option \<times> session_state" where
  "refreshParticipantToken env participant s =
     (if \<not> truthy (p_github_refresh_token_encrypted participant) then (None, s)
      else case refreshedParticipant env participant of
             None \<Rightarrow> (None, s)
           | Some row \<Rightarrow>
              (let s1 = s\<lparr>participants := map (\<lambda>p. if p_id p = p_id participant then row else p)
                                               (participants s)\<rparr>
               in (getParticipantById (p_id participant) s1, s1)))"

datatype auth_resolution = Auth "string option" | Auth_error string nat

definition resolvePromptingUserAuthForPR ::
  "pr_env \<Rightarrow> participant_row \<Rightarrow> int \<Rightarrow> session_state \<Rightarrow> auth_resolution \<times> session_state" where
  "resolvePromptingUserAuthForPR env participant now s =
     (if \<not> truthy (p_github_access_token_encrypted participant) then (Auth None, s)
      else
        let (resolved, s1) =
              (if isGitHubTokenExpired participant now
               then refreshParticipantToken env participant s
               else (Some participant, s))
        in case resolved of
             None \<Rightarrow>
               (Auth_error (''Your GitHub token has expired and could not be refreshed. ''
                            @ ''Please re-authenticate.'') 401, s1)
           | Some resolvedParticipant \<Rightarrow>
              (if \<not> truthy (p_github_access_token_encrypted resolvedParticipant)
               then (Auth None, s1)
               else case decryptToken env
                           (the (p_github_access_token_encrypted resolvedParticipant)) of
                      None \<Rightarrow>
                        (Auth_error ''Failed to process GitHub token for PR creation.'' 500, s1)
                    | Some accessToken \<Rightarrow> (Auth (Some accessToken), s1)))"

definition parseArtifactMetadata :: "artifact_row \<Rightarrow> json option" where
  "parseArtifactMetadata artifact =
     (case a_metadata artifact of
        None \<Rightarrow> None
      | Some None \<Rightarrow> None
      | Some (Some j) \<Rightarrow> Some j)"

text \<open>The values that \<^verbatim>\<open>!metadata\<close> lets through, and the property of a parsed value.\<close>

fun json_truthy :: "json \<Rightarrow> bool" where
  "json_truthy JNull = False"
| "json_truthy (JBool b) = b"
| "json_truthy (JNum n) = (n \<noteq> 0)"
| "json_truthy (JStr t) = (t \<noteq> [])"
| "json_truthy (JArr _) = True"
| "json_truthy (JObj _) = True"

fun json_property :: "json \<Rightarrow> string \<Rightarrow> json option" where
  "json_property (JObj props) name = map_of props name"
| "json_property _ name = None"

fun getExistingManualBranchArtifact ::
  "artifact_row list \<Rightarrow> string \<Rightarrow> (artifact_row \<times> json) option" where
  "getExistingManualBranchArtifact [] headBranch = None"
| "getExistingManualBranchArtifact (artifact # rest) headBranch =
     (if a_type artifact \<noteq> ''branch'' then getExistingManualBranchArtifact rest headBranch
      else case parseArtifactMetadata artifact of
             None \<Rightarrow> getExistingManualBranchArtifact rest headBranch
           | Some metadata \<Rightarrow>
              if \<not> json_truthy metadata then getExistingManualBranchArtifact rest headBranch
              else if json_property metadata ''mode'' = Some (JStr ''manual_pr'')
                      \<and> json_property metadata ''head'' = Some (JStr headBranch)
              then Some (artifact, metadata)
              else getExistingManualBranchArtifact rest headBranch)"

definition getCreatePrUrlFromManualArtifact :: "artifact_row \<times> json \<Rightarrow> string \<Rightarrow> string" where
  "getCreatePrUrlFromManualArtifact existing fallbackUrl =
     (case json_property (snd existing) ''createPrUrl'' of
        Some (JStr metadataUrl) \<Rightarrow>
          if metadataUrl \<noteq> [] then metadataUrl
          else if truthy (a_url (fst existing)) then the (a_url (fst existing))
          else fallbackUrl
      | _ \<Rightarrow> if truthy (a_url (fst existing)) then the (a_url (fst existing))
             else fallbackUrl)"

definition manual_metadata :: "pr_env \<Rightarrow> string \<Rightarrow> string \<Rightarrow> string \<Rightarrow> json" where
  "manual_metadata env headBranch baseBranch manualCreatePrUrl =
     JObj [(''head'', JStr headBranch), (''base'', JStr baseBranch),
           (''mode'', JStr ''manual_pr''), (''createPrUrl'', JStr manualCreatePrUrl),
           (''provider'', JStr (provider_name env))]"

definition buildManualPrFallbackResponse ::
  "pr_env \<Rightarrow> session_row \<Rightarrow> string \<Rightarrow> string \<Rightarrow> artifact_row list \<Rightarrow> string \<Rightarrow> int
     \<Rightarrow> session_state \<Rightarrow> response \<times> session_state" where
  "buildManualPrFallbackResponse env sess headBranch baseBranch arts artifactId now s =
     (let manualCreatePrUrl = buildManualPullRequestUrl env (s_repo_owner sess)
                                (s_repo_name sess) headBranch baseBranch
      in case getExistingManualBranchArtifact arts headBranch of
           Some existingManualArtifact \<Rightarrow>
             (Json_manual
                (getCreatePrUrlFromManualArtifact existingManualArtifact manualCreatePrUrl)
                headBranch baseBranch, s)
         | None \<Rightarrow>
            (let s1 = createArtifact
                        \<lparr>a_id = artifactId, a_type = ''branch'', a_url = Some manualCreatePrUrl,
                         a_metadata = Some (Some (manual_metadata env headBranch baseBranch
                                                    manualCreatePrUrl)),
                         a_created_at = now\<rparr> s;
                 s2 = emit [Broadcast (Artifact_created artifactId ''branch'' manualCreatePrUrl
                                         None)] s1
             in (Json_manual manualCreatePrUrl headBranch baseBranch, s2)))"

text \<open>
  The handler from the return of \<^verbatim>\<open>pushBranchToRemote\<close> to its call of
  \<^verbatim>\<open>createPullRequest\<close>: the second check, the prompting user's credential, and the
  manual fallback. \<^const>\<open>Inr\<close> is the access token with which the handler goes on.
\<close>

definition handleCreatePR_after_push ::
  "pr_env \<Rightarrow> pr_locals \<Rightarrow> push_result \<Rightarrow> string \<Rightarrow> int \<Rightarrow> session_state
     \<Rightarrow> (response + string) \<times> session_state" where
  "handleCreatePR_after_push env l pushResult artifactId now s =
     (case pushResult of
        Push_failure err \<Rightarrow> (Inl (Json_error err 500), s)
      | Push_success \<Rightarrow>
         (let s1 = updateSessionBranch (s_id (l_session l)) (l_headBranch l) s;
              latestArtifacts = listArtifacts s1
          in if find (\<lambda>artifact. a_type artifact = ''pr'') latestArtifacts \<noteq> None
             then (Inl already_created, s1)
             else
               (case resolvePromptingUserAuthForPR env (l_participant l) now s1 of
                  (Auth (Some accessToken), s2) \<Rightarrow> (Inr accessToken, s2)
                | (_, s2) \<Rightarrow>
                   (let (r, s3) = buildManualPrFallbackResponse env (l_session l)
                                    (l_headBranch l) (l_baseBranch l) latestArtifacts
                                    artifactId now s2
                    in (Inl r, s3)))))"

text \<open>The handler from its call of \<^verbatim>\<open>createPullRequest\<close> to its end.\<close>

definition handleCreatePR_create ::
  "pr_env \<Rightarrow> pr_body \<Rightarrow> pr_locals \<Rightarrow> string \<Rightarrow> string \<Rightarrow> int \<Rightarrow> session_state
     \<Rightarrow> response \<times> session_state" where
  "handleCreatePR_create env body l accessToken artifactId now s =
     (let webAppUrl = the (js_or (js_or (WEB_APP_URL env) (WORKER_URL env)) (Some []));
          sessionUrl = webAppUrl @ ''/session/'' @ l_sessionId l;
          fullBody = pb_body body @ [CHR 0x0A, CHR 0x0A] @ ''---'' @ [CHR 0x0A]
                     @ ''*Created with [Open-Inspect]('' @ sessionUrl @ '')*''
      in case createPullRequest env accessToken (l_repoInfo l) (pb_title body) fullBody
                (l_headBranch l) (l_baseBranch l) of
           Inl err \<Rightarrow> (caught err, s)
         | Inr prResult \<Rightarrow>
            (let s1 = createArtifact
                        \<lparr>a_id = artifactId, a_type = ''pr'', a_url = Some (pr_webUrl prResult),
                         a_metadata = Some (Some (JObj
                           [(''number'', JNum (pr_id prResult)),
                            (''state'', JStr (pr_state prResult)),
                            (''head'', JStr (l_headBranch l)),
                            (''base'', JStr (l_baseBranch l))])),
                         a_created_at = now\<rparr> s;
                 s2 = emit [Broadcast (Artifact_created artifactId ''pr'' (pr_webUrl prResult)
                                         (Some (pr_id prResult)))] s1
             in (Json_pr (pr_id prResult) (pr_webUrl prResult) (pr_state prResult), s2)))"

text \<open>
  The prompting user has no usable credential when the resolution of the user's token
  gives no access token: there is none, or it is expired and cannot be refreshed, or it
  cannot be decrypted.
\<close>

definition no_usable_credential :: "pr_env \<Rightarrow> participant_row \<Rightarrow> int \<Rightarrow> session_state \<Rightarrow> bool" where
  "no_usable_credential env participant now s =
     (case fst (resolvePromptingUserAuthForPR env participant now s) of
        Auth (Some accessToken) \<Rightarrow> False
      | _ \<Rightarrow> True)"

text \<open>
  The whole handler, run without another handler in between. While the handler awaits the
  push, the session goes on; \<open>await_push\<close> is what happens to the state until the promise
  is settled, and how it is settled.
\<close>

definition handleCreatePR ::
  "js_string_api \<Rightarrow> pr_env \<Rightarrow> pr_body \<Rightarrow> nat \<Rightarrow> (session_state \<Rightarrow> push_result \<times> session_state) \<Rightarrow> string \<Rightarrow> int
     \<Rightarrow> session_state \<Rightarrow> response \<times> session_state" where
  "handleCreatePR lib env body caller await_push artifactId now s =
     (case handleCreatePR_begin env body s of
        Inl r \<Rightarrow> (r, s)
      | Inr l \<Rightarrow>
         (let (pushResult, s1) =
                (case pushBranchToRemote lib caller (l_headBranch l) (l_pushSpec l) s of
                   (Some r, s') \<Rightarrow> (r, s')
                 | (None, s') \<Rightarrow> await_push s')
          in case handleCreatePR_after_push env l pushResult artifactId now s1 of
               (Inl r, s2) \<Rightarrow> (r, s2)
             | (Inr accessToken, s2) \<Rightarrow>
                 handleCreatePR_create env body l accessToken artifactId now s2))"

section \<open>Runs of a session\<close>

text \<open>
  A handler runs without interruption between two of its \<^verbatim>\<open>await\<close>s, and at an
  \<^verbatim>\<open>await\<close> the handlers of other requests and events may run. An action is one such
  uninterrupted piece, with the clock readings, the generated ids and the request it
  works on; a run of the session is any sequence of actions. The ids that
  \<^verbatim>\<open>generateId\<close> gives to messages are fresh: a run in which a message would get the id
  of a stored message is no run.
\<close>

datatype action =
    A_enqueue string string string int enqueue_body
  | A_process_queue int
  | A_stop int
  | A_sandbox_event int string sandbox_event
  | A_socket "nat option"
  | A_push nat string git_push_spec
  | A_push_timeout nat string
  | A_pr_after_push pr_locals push_result string int
  | A_pr_create pr_body pr_locals string string int

fun apply_action :: "js_string_api \<Rightarrow> models_api \<Rightarrow> pr_env \<Rightarrow> action \<Rightarrow> session_state \<Rightarrow> session_state" where
  "apply_action lib api env (A_enqueue participantId messageId eventId now body) s =
     handleEnqueuePrompt_store api participantId messageId eventId now body s"
| "apply_action lib api env (A_process_queue now) s = processMessageQueue api now s"
| "apply_action lib api env (A_stop now) s = stopExecution now s"
| "apply_action lib api env (A_sandbox_event now eventId event) s =
     processSandboxEvent_record lib now eventId event s"
| "apply_action lib api env (A_socket socket) s = s\<lparr>sandbox_socket := socket\<rparr>"
| "apply_action lib api env (A_push caller branchName pushSpec) s =
     snd (pushBranchToRemote lib caller branchName pushSpec s)"
| "apply_action lib api env (A_push_timeout caller branchName) s =
     pushBranchToRemote_timeout lib caller branchName s"
| "apply_action lib api env (A_pr_after_push l pushResult artifactId now) s =
     snd (handleCreatePR_after_push env l pushResult artifactId now s)"
| "apply_action lib api env (A_pr_create body l accessToken artifactId now) s =
     snd (handleCreatePR_create env body l accessToken artifactId now s)"

fun fresh_ids :: "action \<Rightarrow> session_state \<Rightarrow> bool" where
  "fresh_ids (A_enqueue participantId messageId eventId now body) s =
     (messageId \<notin> set (map m_id (messages s)))"
| "fresh_ids _ s = True"

fun run :: "js_string_api \<Rightarrow> models_api \<Rightarrow> pr_env \<Rightarrow> action list \<Rightarrow> session_state \<Rightarrow> session_state option" where
  "run lib api env [] s = Some s"
| "run lib api env (a # acts) s =
     (if fresh_ids a s then run lib api env acts (apply_action lib api env a s) else None)"

definition processing_messages :: "session_state \<Rightarrow> message_row list" where
  "processing_messages s = filter (\<lambda>m. m_status m = Processing) (messages s)"

definition message_status_of :: "string \<Rightarrow> session_state \<Rightarrow> message_status option" where
  "message_status_of messageId s =
     map_option m_status (find (\<lambda>m. m_id m = messageId) (messages s))"

text \<open>The broadcasts of an \<^verbatim>\<open>execution_complete\<close> event for a message.\<close>

fun is_execution_complete_for :: "string \<Rightarrow> effect \<Rightarrow> bool" where
  "is_execution_complete_for messageId (Broadcast (Sandbox_event event)) =
     (ev_type event = ''execution_complete'' \<and> ev_messageId event = Some messageId)"
| "is_execution_complete_for messageId _ = False"

definition execution_complete_broadcasts :: "string \<Rightarrow> session_state \<Rightarrow> nat" where
  "execution_complete_broadcasts messageId s =
     length (filter (is_execution_complete_for messageId) (effects s))"

text \<open>
  How one action may change the messages and the trace: it leaves the messages alone, or
  appends a pending message with a fresh id, or starts the next pending message when none
  is processing, or finishes the processing message; only the last may broadcast an
  \<^verbatim>\<open>execution_complete\<close> event with a message id, and then with the id of the message it
  finishes.
\<close>

definition no_completion_broadcast :: "effect list \<Rightarrow> bool" where
  "no_completion_broadcast es = (\<forall>e \<in> set es. \<forall>messageId. \<not> is_execution_complete_for messageId e)"

definition msg_transition :: "session_state \<Rightarrow> session_state \<Rightarrow> bool" where
  "msg_transition s s' =
     (\<exists>es. effects s' = effects s @ es \<and>
        ((messages s' = messages s \<and> no_completion_broadcast es)
         \<or> (\<exists>r. messages s' = messages s @ [r] \<and> m_status r = Pending
                 \<and> m_id r \<notin> set (map m_id (messages s)) \<and> no_completion_broadcast es)
         \<or> (\<exists>m now. getProcessingMessage s = None \<and> getNextPendingMessage s = Some m
                 \<and> messages s' = messages (updateMessageToProcessing (m_id m) now s)
                 \<and> no_completion_broadcast es)
         \<or> (\<exists>pm st now. getProcessingMessage s = Some pm \<and> (st = Completed \<or> st = Failed)
                 \<and> messages s' = messages (updateMessageCompletion (m_id pm) st now s)
                 \<and> (\<forall>e \<in> set es. \<forall>messageId. is_execution_complete_for messageId e
                        \<longrightarrow> messageId = m_id pm))))"

definition session_inv :: "session_state \<Rightarrow> bool" where
  "session_inv s =
     (distinct (map m_id (messages s))
      \<and> length (processing_messages s) \<le> 1
      \<and> (\<forall>messageId. 0 < execution_complete_broadcasts messageId s \<longrightarrow>
             (\<exists>m \<in> set (messages s). m_id m = messageId
                 \<and> (m_status m = Completed \<or> m_status m = Failed))))"

section \<open>Example values\<close>

definition example_api :: models_api where
  "example_api =
     \<lparr>DEFAULT_MODEL = ''default-model'',
      isValidModel = (\<lambda>m. m = ''default-model''),
      isValidReasoningEffort = (\<lambda>m e. e = ''high''),
      getValidModelOrDefault = (\<lambda>m. ''default-model''),
      getDefaultReasoningEffort = (\<lambda>m. None)\<rparr>"

definition example_message :: "string \<Rightarrow> message_status \<Rightarrow> message_row" where
  "example_message messageId status =
     \<lparr>m_id = messageId, m_author_id = ''p1'', m_content = ''fix the bug'', m_source = ''web'',
      m_model = None, m_reasoning_effort = None, m_attachments = None,
      m_callback_context = None, m_status = status, m_created_at = 1,
      m_started_at = None, m_completed_at = None\<rparr>"

definition example_event :: "string \<Rightarrow> string option \<Rightarrow> string option \<Rightarrow> sandbox_event" where
  "example_event type messageId branchName =
     \<lparr>ev_type = type, ev_messageId = messageId, ev_success = True, ev_status = [],
      ev_sha = None, ev_branchName = branchName, ev_error = None\<rparr>"

definition example_participant :: participant_row where
  "example_participant =
     \<lparr>p_id = ''p1'', p_user_id = ''u1'', p_github_login = None, p_github_name = None,
      p_github_email = None, p_github_access_token_encrypted = None,
      p_github_refresh_token_encrypted = None, p_github_token_expires_at = None\<rparr>"

definition example_session :: session_row where
  "example_session =
     \<lparr>s_id = ''s1'', s_session_name = None, s_repo_owner = ''acme'', s_repo_name = ''app'',
      s_branch_name = None, s_current_sha = None, s_model = None,
      s_reasoning_effort = None\<rparr>"

text \<open>A session with the messages given, a sandbox row and the sandbox socket given.\<close>

definition example_state :: "message_row list \<Rightarrow> nat option \<Rightarrow> session_state" where
  "example_state ms socket =
     \<lparr>messages = ms, events = [], artifacts = [], participants = [example_participant],
      session = Some example_session,
      sandbox = Some \<lparr>sb_id = ''sb1'', sb_status = ''ready'', sb_git_sync_status = ''pending'',
                       sb_last_heartbeat = None\<rparr>,
      sandbox_socket = socket, pendingPushResolvers = Map.empty, effects = []\<rparr>"

definition example_body :: enqueue_body where
  "example_body =
     \<lparr>b_content = ''fix the bug'', b_authorId = ''u1'', b_source = ''web'', b_model = None,
      b_reasoningEffort = None, b_attachments = None, b_callbackContext = None\<rparr>"

text \<open>
  A provider that answers every call, a branch resolution that takes the requested branch,
  and a token encryption that decrypts every token to \<^verbatim>\<open>token\<close>.
\<close>

definition example_env :: pr_env where
  "example_env =
     \<lparr>provider_name = ''github'',
      generatePushAuth = Inr ''app-token'',
      getRepository = (\<lambda>token owner name.
        Inr \<lparr>ri_owner = owner, ri_name = name, ri_defaultBranch = ''main''\<rparr>),
      buildGitPushSpec = (\<lambda>owner name sourceRef targetBranch token force.
        \<lparr>gp_owner = owner, gp_name = name, gp_sourceRef = sourceRef,
         gp_targetBranch = targetBranch, gp_token = token, gp_force = force\<rparr>),
      createPullRequest = (\<lambda>token repo title body sourceBranch targetBranch.
        Inr \<lparr>pr_id = int (length sourceBranch), pr_webUrl = ''https://example.test/pull/''
                @ sourceBranch, pr_state = ''open''\<rparr>),
      buildManualPullRequestUrl = (\<lambda>owner name sourceBranch targetBranch.
        ''https://example.test/'' @ owner @ ''/'' @ name @ ''/compare/'' @ targetBranch
          @ ''...'' @ sourceBranch),
      generateBranchName = (\<lambda>sessionId. ''open-inspect/'' @ sessionId),
      resolveHeadBranchForPr = (\<lambda>requested sessionBranch generated baseBranch.
        the (js_or (js_or requested sessionBranch) (Some generated))),
      decryptToken = (\<lambda>encrypted. Some ''token''),
      refreshedParticipant = (\<lambda>participant. None),
      WEB_APP_URL = Some ''https://app.example.test'',
      WORKER_URL = None\<rparr>"

text \<open>
  A session in which the prompt \<^verbatim>\<open>m1\<close> was enqueued and dispatched, and the same session
  after it was stopped at time 5 and a second prompt \<^verbatim>\<open>m2\<close> was enqueued and dispatched.
\<close>

definition example_running :: session_state where
  "example_running =
     apply_action ascii_strings example_api example_env (A_process_queue 2)
       (apply_action ascii_strings example_api example_env (A_enqueue ''p9'' ''m1'' ''e1'' 1 example_body)
          (example_state [] (Some 1)))"

definition example_next_running :: session_state where
  "example_next_running =
     apply_action ascii_strings example_api example_env (A_process_queue 7)
       (apply_action ascii_strings example_api example_env (A_enqueue ''p9'' ''m2'' ''e2'' 6 example_body)
          (stopExecution 5 example_running))"

definition example_pr_body :: "string \<Rightarrow> pr_body" where
  "example_pr_body headBranch =
     \<lparr>pb_title = ''Fix the bug'', pb_body = ''Fixes it.'', pb_baseBranch = None,
      pb_headBranch = Some headBranch\<rparr>"

text \<open>
  A session whose prompt \<^verbatim>\<open>m1\<close> is processing with no sandbox connected, and the same
  session once create-PR has fallen back to a manual pull request for \<^verbatim>\<open>feature/x\<close>.
\<close>

definition example_pr_state :: session_state where
  "example_pr_state = example_state [example_message ''m1'' Processing] None"

definition example_manual_url :: string where
  "example_manual_url = ''https://example.test/acme/app/compare/main...feature/x''"

definition example_manual_state :: session_state where
  "example_manual_state =
     example_pr_state\<lparr>
       session := Some (example_session\<lparr>s_branch_name := Some ''feature/x''\<rparr>),
       artifacts := [\<lparr>a_id = ''a1'', a_type = ''branch'', a_url = Some example_manual_url,
          a_metadata = Some (Some (manual_metadata example_env ''feature/x'' ''main''
                                     example_manual_url)),
          a_created_at = 10\<rparr>],
       effects := [Broadcast (Artifact_created ''a1'' ''branch'' example_manual_url None)]\<rparr>"

text \<open>
  The same session when the author of the prompt has a stored OAuth token that does not
  expire, and what a create-PR request for a head branch keeps across its awaits there.
\<close>

definition example_oauth_state :: session_state where
  "example_oauth_state =
     example_pr_state\<lparr>participants :=
       [example_participant\<lparr>p_github_access_token_encrypted := Some ''encrypted''\<rparr>]\<rparr>"

definition example_locals :: "string \<Rightarrow> pr_locals" where
  "example_locals headBranch =
     \<lparr>l_session = example_session, l_sessionId = ''s1'',
      l_participant = example_participant\<lparr>p_github_access_token_encrypted := Some ''encrypted''\<rparr>,
      l_repoInfo = \<lparr>ri_owner = ''acme'', ri_name = ''app'', ri_defaultBranch = ''main''\<rparr>,
      l_baseBranch = ''main'', l_headBranch = headBranch,
      l_pushSpec = \<lparr>gp_owner = ''acme'', gp_name = ''app'', gp_sourceRef = ''HEAD'',
                    gp_targetBranch = headBranch, gp_token = ''app-token'', gp_force = True\<rparr>\<rparr>"




section \<open>Properties of mergeSecrets\<close>

lemma assign_normalized_distinct:
  "distinct (map fst m) \<Longrightarrow> distinct (map fst (assign_normalized lib m es))"
  by (induction lib m es rule: assign_normalized.induct) (simp_all add: distinct_update)

lemma assign_normalized_map_of:
  "map_of (assign_normalized lib m es) = map_of m ++ map_of (rev (upper_case_entries lib es))"
proof (induction lib m es rule: assign_normalized.induct)
  case (1 lib m)
  show ?case by (simp add: upper_case_entries_def)
next
  case (2 lib m key v entries)
  have "map_of (AList.update (normalizeKey lib key) v m)
          ++ map_of (rev (upper_case_entries lib entries))
        = map_of m ++ map_of (rev (upper_case_entries lib ((key, v) # entries)))"
    by (simp add: upper_case_entries_def normalizeKey_def update_conv' map_add_upd_left
        fun_eq_iff map_add_def split: option.splits)
  with 2 show ?case by simp
qed

lemma assign_normalized_keys:
  "fst ` set (assign_normalized lib m es) = fst ` set m \<union> js_toUpperCase lib ` fst ` set es"
proof (induction lib m es rule: assign_normalized.induct)
  case (1 lib m)
  show ?case by simp
next
  case (2 lib m key v entries)
  then show ?case
    by (auto simp: dom_update image_iff normalizeKey_def)
qed

lemma add_value_bytes_sum:
  "add_value_bytes t vs = t + sum_list (map utf8_byte_length vs)"
  by (induction t vs rule: add_value_bytes.induct) simp_all

lemma sum_list_distinct_alist:
  "distinct (map fst m) \<Longrightarrow>
   sum_list (map (\<lambda>e. f (snd e)) m) = (\<Sum>k \<in> fst ` set m. f (the (map_of m k)))"
proof (induction m)
  case Nil
  show ?case by simp
next
  case (Cons e m)
  obtain k v where e: "e = (k, v)" by (cases e)
  from Cons.prems e have k: "k \<notin> fst ` set m" and d: "distinct (map fst m)" by auto
  have "(\<Sum>k' \<in> fst ` set m. f (the (map_of ((k, v) # m) k'))) =
        (\<Sum>k' \<in> fst ` set m. f (the (map_of m k')))"
    using k by (intro sum.cong) auto
  with Cons.IH [OF d] k e show ?case by simp
qed

text \<open>
  C9. For every pair of secret records, and whatever strings their keys are, the keys of
  the merged record are the keys of both inputs upper-cased by the library's
  \<^verbatim>\<open>toUpperCase\<close>, each once. The value of a merged key is that of the last repo entry
  whose key has that upper-case form, and that of the last such global entry when the repo
  has none. So a repo entry (the repo's keys having distinct upper-case forms) gives the
  value found under the upper-case form of every key, global or not, whose upper-case
  form is that of the entry's key. \<^verbatim>\<open>exceedsLimit\<close> holds exactly when the UTF-8 byte
  lengths of the merged values sum to more than \<^verbatim>\<open>maxCombinedBytes\<close>, which is 131072
  when the argument is absent.
\<close>

theorem mergeSecrets_merge_and_limit:
  "fst ` set (merged (mergeSecrets lib global repo maxArg))
     = js_toUpperCase lib ` (fst ` set global \<union> fst ` set repo)
   \<and> distinct (map fst (merged (mergeSecrets lib global repo maxArg)))
   \<and> map_of (merged (mergeSecrets lib global repo maxArg))
       = map_of (rev (upper_case_entries lib global)) ++ map_of (rev (upper_case_entries lib repo))
   \<and> (\<forall>k v k'. (k, v) \<in> set repo \<and> distinct (map (js_toUpperCase lib \<circ> fst) repo)
           \<and> js_toUpperCase lib k' = js_toUpperCase lib k \<longrightarrow>
         map_of (merged (mergeSecrets lib global repo maxArg)) (js_toUpperCase lib k') = Some v)
   \<and> (exceedsLimit (mergeSecrets lib global repo maxArg) \<longleftrightarrow>
        (\<Sum>k \<in> fst ` set (merged (mergeSecrets lib global repo maxArg)).
            utf8_byte_length (the (map_of (merged (mergeSecrets lib global repo maxArg)) k)))
          > (case maxArg of None \<Rightarrow> 131072 | Some m \<Rightarrow> m))"
proof -
  let ?m = "assign_normalized lib (assign_normalized lib [] global) repo"
  have m: "merged (mergeSecrets lib global repo maxArg) = ?m"
    by (simp add: mergeSecrets_def Let_def)
  have keys: "fst ` set ?m = js_toUpperCase lib ` (fst ` set global \<union> fst ` set repo)"
    by (simp add: assign_normalized_keys image_Un)
  have dist: "distinct (map fst ?m)"
    by (intro assign_normalized_distinct) simp
  have mp: "map_of ?m
      = map_of (rev (upper_case_entries lib global)) ++ map_of (rev (upper_case_entries lib repo))"
    by (simp add: assign_normalized_map_of)
  have wins: "map_of ?m (js_toUpperCase lib k') = Some v"
    if "(k, v) \<in> set repo" and d: "distinct (map (js_toUpperCase lib \<circ> fst) repo)"
      and same: "js_toUpperCase lib k' = js_toUpperCase lib k" for k v k'
  proof -
    have "map fst (rev (upper_case_entries lib repo)) = rev (map (js_toUpperCase lib \<circ> fst) repo)"
      by (simp add: upper_case_entries_def rev_map case_prod_unfold comp_def)
    with d have "distinct (map fst (rev (upper_case_entries lib repo)))" by simp
    moreover from that(1)
    have "(js_toUpperCase lib k, v) \<in> set (rev (upper_case_entries lib repo))"
      by (force simp: upper_case_entries_def)
    ultimately have "map_of (rev (upper_case_entries lib repo)) (js_toUpperCase lib k) = Some v"
      by (rule map_of_is_SomeI)
    then show ?thesis by (simp add: mp same)
  qed
  have total: "totalBytes (mergeSecrets lib global repo maxArg)
      = (\<Sum>k \<in> fst ` set ?m. utf8_byte_length (the (map_of ?m k)))"
    using sum_list_distinct_alist [OF dist, of utf8_byte_length]
    by (simp add: mergeSecrets_def Let_def add_value_bytes_sum comp_def)
  have lim: "exceedsLimit (mergeSecrets lib global repo maxArg) \<longleftrightarrow>
      totalBytes (mergeSecrets lib global repo maxArg)
        > (case maxArg of None \<Rightarrow> 131072 | Some m \<Rightarrow> m)"
    by (simp add: mergeSecrets_def Let_def)
  show ?thesis
    unfolding m using keys dist mp wins lim total [unfolded m] by (simp add: m)
qed

text \<open>
  The global key \<^verbatim>\<open>foo\<close> and the repo key \<^verbatim>\<open>Foo\<close> give the one merged key \<^verbatim>\<open>FOO\<close>,
  with the repo's value.
\<close>

theorem mergeSecrets_merge_and_limit_witness:
  "((''Foo'', ''repo'') \<in> set [(''Foo'', ''repo''), (''bar'', ''x'')]
     \<and> distinct (map (js_toUpperCase ascii_strings \<circ> fst) [(''Foo'', ''repo''), (''bar'', ''x'')])
     \<and> js_toUpperCase ascii_strings ''foo'' = js_toUpperCase ascii_strings ''Foo'')
   \<and> js_toUpperCase ascii_strings ''foo'' = ''FOO''
   \<and> map_of (merged (mergeSecrets ascii_strings [(''foo'', ''global''), (''baz'', ''12345'')]
                          [(''Foo'', ''repo''), (''bar'', ''x'')] None)) ''FOO'' = Some ''repo''
   \<and> fst ` set (merged (mergeSecrets ascii_strings [(''foo'', ''global''), (''baz'', ''12345'')]
                          [(''Foo'', ''repo''), (''bar'', ''x'')] None))
       = {''FOO'', ''BAZ'', ''BAR''}
   \<and> \<not> exceedsLimit (mergeSecrets ascii_strings [(''foo'', ''global''), (''baz'', ''12345'')]
                          [(''Foo'', ''repo''), (''bar'', ''x'')] None)
   \<and> exceedsLimit (mergeSecrets ascii_strings [(''foo'', ''global''), (''baz'', ''12345'')]
                          [(''Foo'', ''repo''), (''bar'', ''x'')] (Some 9))"
proof -
  let ?g = "[(''foo'', ''global''), (''baz'', ''12345'')]"
  let ?r = "[(''Foo'', ''repo''), (''bar'', ''x'')]"
  have u: "js_toUpperCase ascii_strings ''foo'' = ''FOO''"
    "js_toUpperCase ascii_strings ''Foo'' = ''FOO''"
    "js_toUpperCase ascii_strings ''baz'' = ''BAZ''"
    "js_toUpperCase ascii_strings ''bar'' = ''BAR''"
    by (simp_all add: ascii_strings_def to_upper_char_def)
  have h: "(''Foo'', ''repo'') \<in> set ?r
     \<and> distinct (map (js_toUpperCase ascii_strings \<circ> fst) ?r)
     \<and> js_toUpperCase ascii_strings ''foo'' = js_toUpperCase ascii_strings ''Foo''"
    by (simp add: u)
  note t = mergeSecrets_merge_and_limit [of ascii_strings ?g ?r None]
  note t9 = mergeSecrets_merge_and_limit [of ascii_strings ?g ?r "Some 9"]
  from t h have look: "map_of (merged (mergeSecrets ascii_strings ?g ?r None))
      (js_toUpperCase ascii_strings ''foo'') = Some ''repo''"
    by blast
  from t have keys: "fst ` set (merged (mergeSecrets ascii_strings ?g ?r None))
      = {''FOO'', ''BAZ'', ''BAR''}"
    by (auto simp: u)
  have vals: "map_of (rev (upper_case_entries ascii_strings ?g))
        ++ map_of (rev (upper_case_entries ascii_strings ?r))
      = [''FOO'' \<mapsto> ''repo'', ''BAZ'' \<mapsto> ''12345'', ''BAR'' \<mapsto> ''x'']"
    by (auto simp: upper_case_entries_def u fun_eq_iff map_add_def)
  have sum: "(\<Sum>k \<in> {''FOO'', ''BAZ'', ''BAR''}.
        utf8_byte_length (the ([''FOO'' \<mapsto> ''repo'', ''BAZ'' \<mapsto> ''12345'', ''BAR'' \<mapsto> ''x''] k)))
      = 10"
    by (simp add: utf8_byte_length_def)
  have total: "(\<Sum>k \<in> fst ` set (merged (mergeSecrets ascii_strings ?g ?r m)).
        utf8_byte_length (the (map_of (merged (mergeSecrets ascii_strings ?g ?r m)) k))) = 10"
    if "fst ` set (merged (mergeSecrets ascii_strings ?g ?r m)) = {''FOO'', ''BAZ'', ''BAR''}"
      and "map_of (merged (mergeSecrets ascii_strings ?g ?r m))
             = map_of (rev (upper_case_entries ascii_strings ?g))
                 ++ map_of (rev (upper_case_entries ascii_strings ?r))" for m
    unfolding that vals by (rule sum)
  from t have mp: "map_of (merged (mergeSecrets ascii_strings ?g ?r None))
      = map_of (rev (upper_case_entries ascii_strings ?g))
          ++ map_of (rev (upper_case_entries ascii_strings ?r))"
    by blast
  from t have "exceedsLimit (mergeSecrets ascii_strings ?g ?r None) \<longleftrightarrow>
      (\<Sum>k \<in> fst ` set (merged (mergeSecrets ascii_strings ?g ?r None)).
         utf8_byte_length (the (map_of (merged (mergeSecrets ascii_strings ?g ?r None)) k)))
        > (case None :: int option of None \<Rightarrow> 131072 | Some m \<Rightarrow> m)"
    by blast
  then have no: "\<not> exceedsLimit (mergeSecrets ascii_strings ?g ?r None)"
    unfolding total [OF keys mp] by simp
  from t9 have k9: "fst ` set (merged (mergeSecrets ascii_strings ?g ?r (Some 9)))
      = {''FOO'', ''BAZ'', ''BAR''}"
    by (auto simp: u)
  from t9 have mp9: "map_of (merged (mergeSecrets ascii_strings ?g ?r (Some 9)))
      = map_of (rev (upper_case_entries ascii_strings ?g))
          ++ map_of (rev (upper_case_entries ascii_strings ?r))"
    by blast
  from t9 have "exceedsLimit (mergeSecrets ascii_strings ?g ?r (Some 9)) \<longleftrightarrow>
      (\<Sum>k \<in> fst ` set (merged (mergeSecrets ascii_strings ?g ?r (Some 9))).
         utf8_byte_length (the (map_of (merged (mergeSecrets ascii_strings ?g ?r (Some 9))) k)))
        > (case Some 9 of None \<Rightarrow> 131072 | Some m \<Rightarrow> m)"
    by blast
  then have yes: "exceedsLimit (mergeSecrets ascii_strings ?g ?r (Some 9))"
    unfolding total [OF k9 mp9] by simp
  from h u(1) look keys no yes show ?thesis by (simp add: u)
qed

section \<open>Page limits\<close>

lemma handleListEvents_limit_numeric:
  "handleListEvents searchParams = Inr q \<Longrightarrow>
   parseInt (case searchParams ''limit'' of None \<Rightarrow> ''50'' | Some l \<Rightarrow> l) = Num n \<Longrightarrow>
   le_limit q = Num (min n 200)"
  by (auto simp: handleListEvents_def Let_def split: if_splits)

lemma handleListMessages_limit_numeric:
  "handleListMessages searchParams = Inr q \<Longrightarrow>
   parseInt (case searchParams ''limit'' of None \<Rightarrow> ''50'' | Some l \<Rightarrow> l) = Num n \<Longrightarrow>
   lm_limit q = Num (min n 100)"
  by (auto simp: handleListMessages_def Let_def split: if_splits)

text \<open>
  C7. The limit handed to the repository is to be at most 200 for events and at most 100
  for messages whatever the \<^verbatim>\<open>limit\<close> parameter is. For \<^verbatim>\<open>limit=abc\<close> the handlers
  hand over \<^verbatim>\<open>NaN\<close>, which is not at most any bound.
\<close>

theorem list_limit_non_numeric_is_NaN:
  "handleListEvents [''limit'' \<mapsto> ''abc'']
     = Inr \<lparr>le_cursor = None, le_limit = NaN, le_type = None, le_messageId = None\<rparr>
   \<and> \<not> js_le NaN (Num 200)
   \<and> handleListMessages [''limit'' \<mapsto> ''abc'']
     = Inr \<lparr>lm_cursor = None, lm_limit = NaN, lm_status = None\<rparr>
   \<and> \<not> js_le NaN (Num 100)"
  by (simp add: handleListEvents_def handleListMessages_def parseInt_def is_white_space_def
      radix_digit_def digit_value_def truthy_def)

section \<open>Frame lemmas\<close>

lemma events_emit [simp]: "events (emit es s) = events s"
  and messages_emit [simp]: "messages (emit es s) = messages s"
  and artifacts_emit [simp]: "artifacts (emit es s) = artifacts s"
  and effects_emit [simp]: "effects (emit es s) = effects s @ es"
  and socket_emit [simp]: "sandbox_socket (emit es s) = sandbox_socket s"
  and pending_emit [simp]: "pendingPushResolvers (emit es s) = pendingPushResolvers s"
  by (simp_all add: emit_def)

lemma getProcessingMessage_emit [simp]:
  "getProcessingMessage (emit es s) = getProcessingMessage s"
  and getNextPendingMessage_emit [simp]:
  "getNextPendingMessage (emit es s) = getNextPendingMessage s"
  by (simp_all add: getProcessingMessage_def getNextPendingMessage_def)

lemma events_processMessageQueue: "events (processMessageQueue api now s) = events s"
  by (simp add: processMessageQueue_def Let_def updateMessageToProcessing_def
      split: option.splits)

lemma events_handlePushEvent: "events (handlePushEvent lib event s) = events s"
  by (simp add: handlePushEvent_def Let_def split: option.splits)

lemma events_processSandboxEvent_record:
  "ev_type event \<noteq> ''heartbeat'' \<Longrightarrow>
   events (processSandboxEvent_record lib now eventId event s) =
     events s @ [\<lparr>e_id = eventId, e_type = ev_type event, e_data = event,
                  e_message_id = nullish (ev_messageId event)
                                   (map_option m_id (getProcessingMessage s)),
                  e_created_at = now\<rparr>]"
  by (simp add: processSandboxEvent_record_def Let_def createEvent_def updateMessageCompletion_def
      updateSandboxGitSyncStatus_def updateSessionCurrentSha_def events_handlePushEvent)

section \<open>Sandbox events\<close>

text \<open>
  C8. A heartbeat changes the last-heartbeat field of the sandbox row and nothing else: the
  events, the messages and the trace of broadcasts stay as they were. An event of any
  other type appends one event row, which holds the event.
\<close>

theorem heartbeat_only_updates_last_heartbeat:
  "(ev_type event = ''heartbeat'' \<longrightarrow>
      processSandboxEvent lib api now eventId queueNow event s
        = s\<lparr>sandbox := map_option (\<lambda>sb. sb\<lparr>sb_last_heartbeat := Some now\<rparr>) (sandbox s)\<rparr>
      \<and> events (processSandboxEvent lib api now eventId queueNow event s) = events s
      \<and> messages (processSandboxEvent lib api now eventId queueNow event s) = messages s
      \<and> effects (processSandboxEvent lib api now eventId queueNow event s) = effects s)
   \<and> (ev_type event \<noteq> ''heartbeat'' \<longrightarrow>
      (\<exists>row. events (processSandboxEvent lib api now eventId queueNow event s) = events s @ [row]
         \<and> e_id row = eventId \<and> e_type row = ev_type event \<and> e_data row = event
         \<and> e_created_at row = now))"
proof (intro conjI impI)
  assume h: "ev_type event = ''heartbeat''"
  then show eq: "processSandboxEvent lib api now eventId queueNow event s
        = s\<lparr>sandbox := map_option (\<lambda>sb. sb\<lparr>sb_last_heartbeat := Some now\<rparr>) (sandbox s)\<rparr>"
    by (simp add: processSandboxEvent_def processSandboxEvent_record_def updateSandboxHeartbeat_def)
  show "events (processSandboxEvent lib api now eventId queueNow event s) = events s"
    "messages (processSandboxEvent lib api now eventId queueNow event s) = messages s"
    "effects (processSandboxEvent lib api now eventId queueNow event s) = effects s"
    by (simp_all add: eq)
next
  assume h: "ev_type event \<noteq> ''heartbeat''"
  then show "\<exists>row. events (processSandboxEvent lib api now eventId queueNow event s) = events s @ [row]
         \<and> e_id row = eventId \<and> e_type row = ev_type event \<and> e_data row = event
         \<and> e_created_at row = now"
    by (simp add: processSandboxEvent_def Let_def events_processMessageQueue
        events_processSandboxEvent_record)
qed

theorem heartbeat_only_updates_last_heartbeat_witness:
  "ev_type (example_event ''heartbeat'' None None) = ''heartbeat''
   \<and> processSandboxEvent ascii_strings example_api 7 ''e1'' 7 (example_event ''heartbeat'' None None)
        (example_state [example_message ''m1'' Processing] (Some 1))
      = (example_state [example_message ''m1'' Processing] (Some 1))
          \<lparr>sandbox := Some \<lparr>sb_id = ''sb1'', sb_status = ''ready'',
                              sb_git_sync_status = ''pending'', sb_last_heartbeat = Some 7\<rparr>\<rparr>
   \<and> ev_type (example_event ''token'' None None) \<noteq> ''heartbeat''
   \<and> length (events (processSandboxEvent ascii_strings example_api 7 ''e1'' 7 (example_event ''token'' None None)
        (example_state [example_message ''m1'' Processing] (Some 1)))) = 1"
proof -
  have h1: "ev_type (example_event ''heartbeat'' None None) = ''heartbeat''"
    by (simp add: example_event_def)
  have h2: "ev_type (example_event ''token'' None None) \<noteq> ''heartbeat''"
    by (simp add: example_event_def)
  have e0: "events (example_state [example_message ''m1'' Processing] (Some 1)) = []"
    by (simp add: example_state_def)
  from heartbeat_only_updates_last_heartbeat
    [where event = "example_event ''heartbeat'' None None" and lib = ascii_strings
       and api = example_api and now = 7 and eventId = "''e1''" and queueNow = 7
       and s = "example_state [example_message ''m1'' Processing] (Some 1)"] h1
  have a: "processSandboxEvent ascii_strings example_api 7 ''e1'' 7 (example_event ''heartbeat'' None None)
        (example_state [example_message ''m1'' Processing] (Some 1))
      = (example_state [example_message ''m1'' Processing] (Some 1))
          \<lparr>sandbox := Some \<lparr>sb_id = ''sb1'', sb_status = ''ready'',
                              sb_git_sync_status = ''pending'', sb_last_heartbeat = Some 7\<rparr>\<rparr>"
    by (simp add: example_state_def)
  from heartbeat_only_updates_last_heartbeat
    [where event = "example_event ''token'' None None" and lib = ascii_strings
       and api = example_api and now = 7 and eventId = "''e1''" and queueNow = 7
       and s = "example_state [example_message ''m1'' Processing] (Some 1)"] h2
  have b: "length (events (processSandboxEvent ascii_strings example_api 7 ''e1'' 7
        (example_event ''token'' None None)
        (example_state [example_message ''m1'' Processing] (Some 1)))) = 1"
    using e0 by auto
  from h1 h2 a b show ?thesis by blast
qed

text \<open>
  C10. The row persisted for an event other than a heartbeat carries the event's own
  message id when the event has one, whatever message is processing; when the event has
  none it carries the id of the processing message, and no id when none is processing.
\<close>

theorem event_message_attribution:
  "ev_type event \<noteq> ''heartbeat'' \<Longrightarrow>
   events (processSandboxEvent lib api now eventId queueNow event s) \<noteq> []
   \<and> e_message_id (last (events (processSandboxEvent lib api now eventId queueNow event s)))
       = (case ev_messageId event of
            Some m \<Rightarrow> Some m
          | None \<Rightarrow> (case getProcessingMessage s of Some p \<Rightarrow> Some (m_id p) | None \<Rightarrow> None))"
  by (simp add: processSandboxEvent_def Let_def events_processMessageQueue
      events_processSandboxEvent_record nullish_def split: option.splits)

theorem event_message_attribution_witness:
  "ev_type (example_event ''token'' (Some ''m1'') None) \<noteq> ''heartbeat''
   \<and> getProcessingMessage
        (example_state [example_message ''m1'' Failed, example_message ''m2'' Processing] (Some 1))
       = Some (example_message ''m2'' Processing)
   \<and> e_message_id (last (events (processSandboxEvent ascii_strings example_api 7 ''e1'' 7
         (example_event ''token'' (Some ''m1'') None)
         (example_state [example_message ''m1'' Failed, example_message ''m2'' Processing]
            (Some 1))))) = Some ''m1''
   \<and> e_message_id (last (events (processSandboxEvent ascii_strings example_api 7 ''e1'' 7
         (example_event ''token'' None None)
         (example_state [example_message ''m1'' Failed, example_message ''m2'' Processing]
            (Some 1))))) = Some ''m2''"
proof -
  have h: "ev_type (example_event ''token'' mid None) \<noteq> ''heartbeat''" for mid
    by (simp add: example_event_def)
  have p: "getProcessingMessage
        (example_state [example_message ''m1'' Failed, example_message ''m2'' Processing] (Some 1))
       = Some (example_message ''m2'' Processing)"
    by (simp add: getProcessingMessage_def example_state_def example_message_def)
  have i: "m_id (example_message ''m2'' Processing) = ''m2''"
    by (simp add: example_message_def)
  from event_message_attribution [where event = "example_event ''token'' (Some ''m1'') None"
      and api = example_api and now = 7 and eventId = "''e1''" and queueNow = 7
      and s = "example_state [example_message ''m1'' Failed, example_message ''m2'' Processing]
                 (Some 1)", OF h]
    event_message_attribution [where event = "example_event ''token'' None None"
      and api = example_api and now = 7 and eventId = "''e1''" and queueNow = 7
      and s = "example_state [example_message ''m1'' Failed, example_message ''m2'' Processing]
                 (Some 1)", OF h]
    h p i
  show ?thesis by (simp add: example_event_def)
qed

section \<open>The push coordinator\<close>

text \<open>
  C5. With no sandbox socket connected, \<^verbatim>\<open>pushBranchToRemote\<close> returns success at once
  and leaves the state as it was: no resolver is registered and no command is sent.
\<close>

theorem push_without_sandbox_succeeds_at_once:
  "sandbox_socket s = None \<Longrightarrow>
   pushBranchToRemote lib caller branchName pushSpec s = (Some Push_success, s)"
  by (simp add: pushBranchToRemote_def)

theorem push_without_sandbox_succeeds_at_once_witness:
  "sandbox_socket (example_state [] None) = None
   \<and> pushBranchToRemote ascii_strings 1 ''feature/x''
        \<lparr>gp_owner = ''acme'', gp_name = ''app'', gp_sourceRef = ''HEAD'',
         gp_targetBranch = ''feature/x'', gp_token = ''t'', gp_force = True\<rparr>
        (example_state [] None)
      = (Some Push_success, example_state [] None)"
proof -
  have h: "sandbox_socket (example_state [] None) = None"
    by (simp add: example_state_def)
  from h push_without_sandbox_succeeds_at_once [OF h] show ?thesis by simp
qed

section \<open>Branch names\<close>

lemma pending_createEvent [simp]:
  "pendingPushResolvers (createEvent row s) = pendingPushResolvers s"
  and effects_createEvent [simp]: "effects (createEvent row s) = effects s"
  by (simp_all add: createEvent_def)







section \<open>Runs: what an action changes\<close>

lemma messages_simps [simp]:
  "messages (createEvent row s) = messages s"
  "messages (createArtifact arow s) = messages s"
  "messages (updateSandboxHeartbeat now s) = messages s"
  "messages (updateSandboxGitSyncStatus st s) = messages s"
  "messages (updateSessionCurrentSha sha s) = messages s"
  "messages (updateSessionBranch sid b s) = messages s"
  by (simp_all add: createEvent_def createArtifact_def updateSandboxHeartbeat_def
      updateSandboxGitSyncStatus_def updateSessionCurrentSha_def updateSessionBranch_def)

lemma effects_simps [simp]:
  "effects (createArtifact arow s) = effects s"
  "effects (updateSandboxHeartbeat now s) = effects s"
  "effects (updateSandboxGitSyncStatus st s) = effects s"
  "effects (updateSessionCurrentSha sha s) = effects s"
  "effects (updateSessionBranch sid b s) = effects s"
  "effects (updateMessageToProcessing i now s) = effects s"
  "effects (updateMessageCompletion i mst now s) = effects s"
  "effects (createMessage mrow s) = effects s"
  by (simp_all add: createArtifact_def updateSandboxHeartbeat_def
      updateSandboxGitSyncStatus_def updateSessionCurrentSha_def updateSessionBranch_def
      updateMessageToProcessing_def updateMessageCompletion_def createMessage_def)

lemma getProcessingMessage_frame [simp]:
  "getProcessingMessage (createEvent row s) = getProcessingMessage s"
  "getNextPendingMessage (createEvent row s) = getNextPendingMessage s"
  by (simp_all add: getProcessingMessage_def getNextPendingMessage_def)

lemma msg_transition_same:
  "messages s' = messages s \<Longrightarrow> effects s' = effects s @ es \<Longrightarrow> no_completion_broadcast es
   \<Longrightarrow> msg_transition s s'"
  unfolding msg_transition_def by blast

lemma no_completion_simps [simp]:
  "no_completion_broadcast []"
  "no_completion_broadcast (e # es) =
     ((\<forall>messageId. \<not> is_execution_complete_for messageId e) \<and> no_completion_broadcast es)"
  by (auto simp: no_completion_broadcast_def)

lemma transition_processMessageQueue: "msg_transition s (processMessageQueue api now s)"
proof (cases "getProcessingMessage s")
  case (Some pm)
  then show ?thesis
    by (intro msg_transition_same [where es = "[]"]) (simp_all add: processMessageQueue_def)
next
  case None
  note np = this
  show ?thesis
  proof (cases "getNextPendingMessage s")
    case None
    with np show ?thesis
      by (intro msg_transition_same [where es = "[]"]) (simp_all add: processMessageQueue_def)
  next
    case (Some m)
    show ?thesis
    proof (cases "sandbox_socket s")
      case None
      with np Some show ?thesis
        by (intro msg_transition_same [where es = "[Broadcast Sandbox_spawning, Spawn_sandbox]"])
          (simp_all add: processMessageQueue_def)
    next
      case (Some ws)
      with np \<open>getNextPendingMessage s = Some m\<close>
      have "\<exists>es. effects (processMessageQueue api now s) = effects s @ es
              \<and> messages (processMessageQueue api now s)
                  = messages (updateMessageToProcessing (m_id m) now s)
              \<and> no_completion_broadcast es"
        by (simp add: processMessageQueue_def Let_def)
      with np \<open>getNextPendingMessage s = Some m\<close> show ?thesis
        unfolding msg_transition_def by blast
    qed
  qed
qed

lemma transition_stopExecution: "msg_transition s (stopExecution now s)"
proof (cases "getProcessingMessage s")
  case None
  then have "\<exists>es. effects (stopExecution now s) = effects s @ es
      \<and> messages (stopExecution now s) = messages s \<and> no_completion_broadcast es"
    by (simp add: stopExecution_def Let_def split: option.splits)
  then show ?thesis unfolding msg_transition_def by blast
next
  case (Some pm)
  then have "\<exists>es. effects (stopExecution now s) = effects s @ es
      \<and> messages (stopExecution now s) = messages (updateMessageCompletion (m_id pm) Failed now s)
      \<and> (\<forall>e \<in> set es. \<forall>messageId. is_execution_complete_for messageId e \<longrightarrow> messageId = m_id pm)"
    by (simp add: stopExecution_def Let_def synthetic_execution_complete_def
        updateMessageCompletion_def split: option.splits)
  with Some show ?thesis unfolding msg_transition_def by blast
qed


lemma handlePushEvent_frame:
  "messages (handlePushEvent lib event s) = messages s"
  "\<exists>es. effects (handlePushEvent lib event s) = effects s @ es \<and> no_completion_broadcast es"
  by (simp_all add: handlePushEvent_def Let_def split: option.splits)

lemma transition_processSandboxEvent_record:
  "msg_transition s (processSandboxEvent_record lib now eventId event s)"
proof -
  let ?s' = "processSandboxEvent_record lib now eventId event s"
  let ?mid = "nullish (ev_messageId event) (map_option m_id (getProcessingMessage s))"
  consider (hb) "ev_type event = ''heartbeat''"
    | (still) "ev_type event = ''execution_complete''"
        "?mid \<noteq> None \<and> map_option m_id (getProcessingMessage s) = ?mid"
    | (late) "ev_type event = ''execution_complete''"
        "\<not> (?mid \<noteq> None \<and> map_option m_id (getProcessingMessage s) = ?mid)"
    | (other) "ev_type event \<noteq> ''heartbeat''" "ev_type event \<noteq> ''execution_complete''"
    by blast
  then show ?thesis
  proof cases
    case hb
    then show ?thesis
      by (intro msg_transition_same [where es = "[]"])
        (simp_all add: processSandboxEvent_record_def)
  next
    case still
    then obtain pm where pm: "getProcessingMessage s = Some pm" "?mid = Some (m_id pm)"
      by (cases "getProcessingMessage s") auto
    define st where "st = (if ev_success event then Completed else Failed)"
    have st: "st = Completed \<or> st = Failed" by (simp add: st_def)
    have m: "messages ?s' = messages (updateMessageCompletion (m_id pm) st now s)"
      using still pm
      by (simp add: processSandboxEvent_record_def Let_def st_def updateMessageCompletion_def
          createEvent_def)
    have e: "\<exists>es. effects ?s' = effects s @ es
        \<and> (\<forall>e \<in> set es. \<forall>messageId. is_execution_complete_for messageId e
               \<longrightarrow> messageId = m_id pm)"
    proof (cases "ev_messageId event")
      case None
      with still pm show ?thesis
        by (simp add: processSandboxEvent_record_def Let_def nullish_def)
    next
      case (Some i)
      with still pm show ?thesis
        by (simp add: processSandboxEvent_record_def Let_def nullish_def)
    qed
    from pm(1) st m e show ?thesis unfolding msg_transition_def by blast
  next
    case late
    then have "processSandboxEvent_record lib now eventId event s =
        emit [Trigger_snapshot ''execution_complete'', Update_last_activity now,
              Schedule_inactivity_check]
          (createEvent \<lparr>e_id = eventId, e_type = ev_type event, e_data = event,
                         e_message_id = ?mid, e_created_at = now\<rparr> s)"
      unfolding processSandboxEvent_record_def Let_def by (simp only: if_False if_True) simp
    then show ?thesis
      by (intro msg_transition_same [where es = "[Trigger_snapshot ''execution_complete'',
            Update_last_activity now, Schedule_inactivity_check]"]) simp_all
  next
    case other
    define t where "t =
      (let s1 = createEvent \<lparr>e_id = eventId, e_type = ev_type event, e_data = event,
                              e_message_id = ?mid, e_created_at = now\<rparr> s
       in if ev_type event = ''git_sync'' then
            let s3 = updateSandboxGitSyncStatus (ev_status event) s1
            in if truthy (ev_sha event)
               then updateSessionCurrentSha (the (ev_sha event)) s3 else s3
          else s1)"
    define u where "u = (if ev_type event = ''push_complete'' \<or> ev_type event = ''push_error''
                        then handlePushEvent lib event t else t)"
    have t: "messages t = messages s" "effects t = effects s"
      by (simp_all add: t_def Let_def)
    have eq: "?s' = emit [Broadcast (Sandbox_event event)] u"
      using other by (simp add: processSandboxEvent_record_def Let_def t_def u_def)
    obtain es where es: "effects u = effects s @ es" "no_completion_broadcast es"
      using handlePushEvent_frame(2) [of lib event t] t(2)
      by (cases "ev_type event = ''push_complete'' \<or> ev_type event = ''push_error''")
        (auto simp: u_def)
    have mu: "messages u = messages s"
      by (simp add: u_def handlePushEvent_frame(1) t)
    have "messages ?s' = messages s" by (simp add: eq mu)
    moreover have "effects ?s' = effects s @ (es @ [Broadcast (Sandbox_event event)])"
      by (simp add: eq es)
    moreover have "no_completion_broadcast (es @ [Broadcast (Sandbox_event event)])"
      using es(2) other by (simp add: no_completion_broadcast_def)
    ultimately show ?thesis by (rule msg_transition_same)
  qed
qed


lemma transition_handleEnqueuePrompt_store:
  assumes "messageId \<notin> set (map m_id (messages s))"
  shows "msg_transition s (handleEnqueuePrompt_store api participantId messageId eventId now body s)"
proof -
  let ?s' = "handleEnqueuePrompt_store api participantId messageId eventId now body s"
  have "\<exists>r. messages ?s' = messages s @ [r] \<and> m_status r = Pending \<and> m_id r = messageId"
    by (simp add: handleEnqueuePrompt_store_def Let_def writeUserMessageEvent_def
        createMessage_def createParticipantRecord_def split: option.splits prod.splits)
  moreover have "\<exists>es. effects ?s' = effects s @ es \<and> no_completion_broadcast es"
    by (simp add: handleEnqueuePrompt_store_def Let_def writeUserMessageEvent_def
        createMessage_def createParticipantRecord_def split: option.splits prod.splits)
  ultimately show ?thesis using assms unfolding msg_transition_def by metis
qed

lemma transition_pushBranchToRemote:
  "msg_transition s (snd (pushBranchToRemote lib caller branchName pushSpec s))"
proof (cases "sandbox_socket s")
  case None
  then show ?thesis
    by (intro msg_transition_same [where es = "[]"]) (simp_all add: pushBranchToRemote_def)
next
  case (Some ws)
  then show ?thesis
    by (intro msg_transition_same [where es = "[Send_sandbox (Push pushSpec)]"])
      (simp_all add: pushBranchToRemote_def Let_def)
qed

lemma transition_pushBranchToRemote_timeout:
  "msg_transition s (pushBranchToRemote_timeout lib caller branchName s)"
proof (cases "pendingPushResolvers s (normalizeBranchName lib branchName)")
  case None
  then show ?thesis
    by (intro msg_transition_same [where es = "[]"])
      (simp_all add: pushBranchToRemote_timeout_def)
next
  case (Some r)
  then show ?thesis
    by (intro msg_transition_same
        [where es = "[Reject_push caller ''Push operation timed out after 180 seconds'']"])
      (simp_all add: pushBranchToRemote_timeout_def Let_def)
qed

lemma resolvePromptingUserAuthForPR_frame [simp]:
  "messages (snd (resolvePromptingUserAuthForPR env p now s)) = messages s"
  "effects (snd (resolvePromptingUserAuthForPR env p now s)) = effects s"
  "artifacts (snd (resolvePromptingUserAuthForPR env p now s)) = artifacts s"
  by (simp_all add: resolvePromptingUserAuthForPR_def refreshParticipantToken_def Let_def
      split: option.splits prod.splits)

lemma buildManualPrFallbackResponse_frame:
  "messages (snd (buildManualPrFallbackResponse env sess h b arts aid now s)) = messages s"
  "\<exists>es. effects (snd (buildManualPrFallbackResponse env sess h b arts aid now s)) = effects s @ es
        \<and> no_completion_broadcast es"
  by (simp_all add: buildManualPrFallbackResponse_def Let_def split: option.splits)

lemma handleCreatePR_after_push_cases:
  obtains (failed) err where "pushResult = Push_failure err"
      "handleCreatePR_after_push env l pushResult artifactId now s = (Inl (Json_error err 500), s)"
  | (exists) "pushResult = Push_success"
      "find (\<lambda>artifact. a_type artifact = ''pr'')
         (listArtifacts (updateSessionBranch (s_id (l_session l)) (l_headBranch l) s)) \<noteq> None"
      "handleCreatePR_after_push env l pushResult artifactId now s
         = (Inl already_created, updateSessionBranch (s_id (l_session l)) (l_headBranch l) s)"
  | (proceed) accessToken where "pushResult = Push_success"
      "find (\<lambda>artifact. a_type artifact = ''pr'')
         (listArtifacts (updateSessionBranch (s_id (l_session l)) (l_headBranch l) s)) = None"
      "fst (resolvePromptingUserAuthForPR env (l_participant l) now
             (updateSessionBranch (s_id (l_session l)) (l_headBranch l) s))
         = Auth (Some accessToken)"
      "handleCreatePR_after_push env l pushResult artifactId now s
         = (Inr accessToken,
            snd (resolvePromptingUserAuthForPR env (l_participant l) now
                   (updateSessionBranch (s_id (l_session l)) (l_headBranch l) s)))"
  | (manual) "pushResult = Push_success"
      "find (\<lambda>artifact. a_type artifact = ''pr'')
         (listArtifacts (updateSessionBranch (s_id (l_session l)) (l_headBranch l) s)) = None"
      "\<forall>accessToken. fst (resolvePromptingUserAuthForPR env (l_participant l) now
             (updateSessionBranch (s_id (l_session l)) (l_headBranch l) s))
         \<noteq> Auth (Some accessToken)"
      "handleCreatePR_after_push env l pushResult artifactId now s
         = (Inl (fst (buildManualPrFallbackResponse env (l_session l) (l_headBranch l)
                       (l_baseBranch l)
                       (listArtifacts (updateSessionBranch (s_id (l_session l)) (l_headBranch l) s))
                       artifactId now
                       (snd (resolvePromptingUserAuthForPR env (l_participant l) now
                         (updateSessionBranch (s_id (l_session l)) (l_headBranch l) s))))),
            snd (buildManualPrFallbackResponse env (l_session l) (l_headBranch l)
                       (l_baseBranch l)
                       (listArtifacts (updateSessionBranch (s_id (l_session l)) (l_headBranch l) s))
                       artifactId now
                       (snd (resolvePromptingUserAuthForPR env (l_participant l) now
                         (updateSessionBranch (s_id (l_session l)) (l_headBranch l) s)))))"
proof (cases pushResult)
  case (Push_failure err)
  then show ?thesis using failed by (simp add: handleCreatePR_after_push_def)
next
  case Push_success
  let ?s1 = "updateSessionBranch (s_id (l_session l)) (l_headBranch l) s"
  show ?thesis
  proof (cases "find (\<lambda>artifact. a_type artifact = ''pr'') (listArtifacts ?s1) = None")
    case False
    with Push_success show ?thesis using exists
      by (simp add: handleCreatePR_after_push_def Let_def)
  next
    case True
    obtain r s2 where r: "resolvePromptingUserAuthForPR env (l_participant l) now ?s1 = (r, s2)"
      by (cases "resolvePromptingUserAuthForPR env (l_participant l) now ?s1")
    show ?thesis
    proof (cases "\<exists>accessToken. r = Auth (Some accessToken)")
      case True
      then obtain accessToken where "r = Auth (Some accessToken)" by blast
      with Push_success \<open>find _ _ = None\<close> r show ?thesis using proceed [of accessToken]
        by (simp add: handleCreatePR_after_push_def Let_def)
    next
      case False
      then have "handleCreatePR_after_push env l pushResult artifactId now s
          = (case buildManualPrFallbackResponse env (l_session l) (l_headBranch l)
                    (l_baseBranch l) (listArtifacts ?s1) artifactId now s2 of
               (r, s3) \<Rightarrow> (Inl r, s3))"
        using Push_success \<open>find _ _ = None\<close> r
        by (cases r; simp add: handleCreatePR_after_push_def Let_def split: option.splits)
      with Push_success \<open>find _ _ = None\<close> r False show ?thesis using manual
        by (simp add: case_prod_unfold)
    qed
  qed
qed

lemma transition_handleCreatePR_after_push:
  "msg_transition s (snd (handleCreatePR_after_push env l pushResult artifactId now s))"
proof (cases rule: handleCreatePR_after_push_cases [of pushResult env l artifactId now s])
  case (failed err)
  then show ?thesis by (intro msg_transition_same [where es = "[]"]) simp_all
next
  case exists
  then show ?thesis by (intro msg_transition_same [where es = "[]"]) simp_all
next
  case (proceed accessToken)
  then show ?thesis by (intro msg_transition_same [where es = "[]"]) simp_all
next
  case manual
  obtain es where "effects (snd (handleCreatePR_after_push env l pushResult artifactId now s))
      = effects s @ es" "no_completion_broadcast es"
    using buildManualPrFallbackResponse_frame(2)
      [of env "l_session l" "l_headBranch l" "l_baseBranch l"
          "listArtifacts (updateSessionBranch (s_id (l_session l)) (l_headBranch l) s)"
          artifactId now
          "snd (resolvePromptingUserAuthForPR env (l_participant l) now
                  (updateSessionBranch (s_id (l_session l)) (l_headBranch l) s))"]
    by (auto simp: manual(4))
  moreover have "messages (snd (handleCreatePR_after_push env l pushResult artifactId now s))
      = messages s"
    by (simp add: manual(4) buildManualPrFallbackResponse_frame(1))
  ultimately show ?thesis by (intro msg_transition_same)
qed

lemma transition_handleCreatePR_create:
  "msg_transition s (snd (handleCreatePR_create env body l accessToken artifactId now s))"
proof -
  let ?s' = "snd (handleCreatePR_create env body l accessToken artifactId now s)"
  have "messages ?s' = messages s"
    by (simp add: handleCreatePR_create_def Let_def split: sum.splits)
  moreover have "\<exists>es. effects ?s' = effects s @ es \<and> no_completion_broadcast es"
    by (simp add: handleCreatePR_create_def Let_def split: sum.splits)
  ultimately show ?thesis using msg_transition_same by blast
qed

lemma transition_apply_action:
  "fresh_ids a s \<Longrightarrow> msg_transition s (apply_action lib api env a s)"
proof (cases a)
  case (A_socket socket)
  then show ?thesis by (simp add: msg_transition_same [where es = "[]"])
qed (simp_all add: transition_handleEnqueuePrompt_store transition_processMessageQueue
    transition_stopExecution transition_processSandboxEvent_record
    transition_pushBranchToRemote transition_pushBranchToRemote_timeout
    transition_handleCreatePR_after_push transition_handleCreatePR_create)


subsection \<open>Lists of messages\<close>

lemma getProcessingMessage_SomeD:
  "getProcessingMessage s = Some pm \<Longrightarrow> pm \<in> set (messages s) \<and> m_status pm = Processing"
  by (auto simp: getProcessingMessage_def find_Some_iff)

lemma getNextPendingMessage_SomeD:
  "getNextPendingMessage s = Some m \<Longrightarrow> m \<in> set (messages s) \<and> m_status m = Pending"
  by (auto simp: getNextPendingMessage_def find_Some_iff)

lemma getProcessingMessage_None_iff:
  "getProcessingMessage s = None \<longleftrightarrow> processing_messages s = []"
  by (auto simp: getProcessingMessage_def processing_messages_def find_None_iff filter_empty_conv)

lemma find_by_id_distinct:
  "distinct (map m_id ms) \<Longrightarrow> m \<in> set ms \<Longrightarrow> find (\<lambda>x. m_id x = m_id m) ms = Some m"
  by (induction ms) (auto simp: image_iff)

lemma find_by_id_map:
  "(\<And>m. m_id (upd m) = m_id m) \<Longrightarrow>
   find (\<lambda>x. m_id x = i) (map upd ms) = map_option upd (find (\<lambda>x. m_id x = i) ms)"
  by (induction ms) auto

lemma same_id_same_row:
  "distinct (map m_id ms) \<Longrightarrow> m \<in> set ms \<Longrightarrow> m' \<in> set ms \<Longrightarrow> m_id m = m_id m' \<Longrightarrow> m = m'"
  by (metis find_by_id_distinct option.inject)

lemma ids_updateMessageToProcessing [simp]:
  "map m_id (messages (updateMessageToProcessing i now s)) = map m_id (messages s)"
  by (simp add: updateMessageToProcessing_def comp_def)

lemma ids_updateMessageCompletion [simp]:
  "map m_id (messages (updateMessageCompletion i st now s)) = map m_id (messages s)"
  by (simp add: updateMessageCompletion_def comp_def)

lemma filter_by_id_le_1:
  "distinct (map m_id ms) \<Longrightarrow> length (filter (\<lambda>m. m_id m = i) ms) \<le> 1"
  by (induction ms) (auto simp: image_iff filter_empty_conv)

lemma processing_after_start:
  assumes "distinct (map m_id (messages s))" "processing_messages s = []"
  shows "length (processing_messages (updateMessageToProcessing i now s)) \<le> 1"
proof -
  have "\<forall>m \<in> set (messages s). m_status m \<noteq> Processing"
    using assms(2) by (simp add: processing_messages_def filter_empty_conv)
  then have "length (processing_messages (updateMessageToProcessing i now s))
      = length (filter (\<lambda>m. m_id m = i) (messages s))"
    unfolding processing_messages_def updateMessageToProcessing_def
    by (induction "messages s" arbitrary: s) (auto simp: filter_map comp_def cong: filter_cong)
  with filter_by_id_le_1 [OF assms(1)] show ?thesis by simp
qed


lemma processing_after_finish:
  assumes "st \<noteq> Processing"
  shows "length (processing_messages (updateMessageCompletion i st now s))
           \<le> length (processing_messages s)"
proof -
  have "length (filter (\<lambda>m. m_status m = Processing)
          (map (\<lambda>m. if m_id m = i then m\<lparr>m_status := st, m_completed_at := Some now\<rparr> else m) ms))
        \<le> length (filter (\<lambda>m. m_status m = Processing) ms)" for ms
    using assms by (induction ms) auto
  then show ?thesis
    by (simp add: processing_messages_def updateMessageCompletion_def)
qed

lemma count_append:
  "effects s' = effects s @ es \<Longrightarrow>
   execution_complete_broadcasts i s'
     = execution_complete_broadcasts i s + length (filter (is_execution_complete_for i) es)"
  by (simp add: execution_complete_broadcasts_def)

lemma no_completion_count:
  "no_completion_broadcast es \<Longrightarrow> filter (is_execution_complete_for i) es = []"
  by (auto simp: no_completion_broadcast_def filter_empty_conv)

lemma row_kept_by_start:
  assumes "distinct (map m_id (messages s))" "getNextPendingMessage s = Some m0"
    and "m \<in> set (messages s)" "m_status m \<noteq> Pending"
  shows "m \<in> set (messages (updateMessageToProcessing (m_id m0) now s))"
proof -
  from getNextPendingMessage_SomeD [OF assms(2)] assms(3,4) same_id_same_row [OF assms(1)]
  have "m_id m \<noteq> m_id m0" by metis
  with assms(3) show ?thesis
    by (force simp: updateMessageToProcessing_def image_iff)
qed

lemma row_kept_by_finish:
  assumes "distinct (map m_id (messages s))" "getProcessingMessage s = Some pm"
    and "m \<in> set (messages s)" "m_status m \<noteq> Processing"
  shows "m \<in> set (messages (updateMessageCompletion (m_id pm) st now s))"
proof -
  from getProcessingMessage_SomeD [OF assms(2)] assms(3,4) same_id_same_row [OF assms(1)]
  have "m_id m \<noteq> m_id pm" by metis
  with assms(3) show ?thesis
    by (force simp: updateMessageCompletion_def image_iff)
qed

lemma session_inv_transition:
  assumes inv: "session_inv s" and tr: "msg_transition s s'"
  shows "session_inv s'"
proof -
  from inv have d: "distinct (map m_id (messages s))"
    and p: "length (processing_messages s) \<le> 1"
    and b: "\<And>i. 0 < execution_complete_broadcasts i s \<Longrightarrow>
             \<exists>m \<in> set (messages s). m_id m = i \<and> (m_status m = Completed \<or> m_status m = Failed)"
    by (auto simp: session_inv_def)
  from tr obtain es where es: "effects s' = effects s @ es"
    and cases: "(messages s' = messages s \<and> no_completion_broadcast es)
         \<or> (\<exists>r. messages s' = messages s @ [r] \<and> m_status r = Pending
                 \<and> m_id r \<notin> set (map m_id (messages s)) \<and> no_completion_broadcast es)
         \<or> (\<exists>m now. getProcessingMessage s = None \<and> getNextPendingMessage s = Some m
                 \<and> messages s' = messages (updateMessageToProcessing (m_id m) now s)
                 \<and> no_completion_broadcast es)
         \<or> (\<exists>pm st now. getProcessingMessage s = Some pm \<and> (st = Completed \<or> st = Failed)
                 \<and> messages s' = messages (updateMessageCompletion (m_id pm) st now s)
                 \<and> (\<forall>e \<in> set es. \<forall>messageId. is_execution_complete_for messageId e
                        \<longrightarrow> messageId = m_id pm))"
    unfolding msg_transition_def by blast
  note cnt = count_append [OF es]
  from cases consider
      (same) "messages s' = messages s" "no_completion_broadcast es"
    | (new) r where "messages s' = messages s @ [r]" "m_status r = Pending"
        "m_id r \<notin> set (map m_id (messages s))" "no_completion_broadcast es"
    | (start) m now where "getProcessingMessage s = None" "getNextPendingMessage s = Some m"
        "messages s' = messages (updateMessageToProcessing (m_id m) now s)"
        "no_completion_broadcast es"
    | (finish) pm st now where "getProcessingMessage s = Some pm" "st = Completed \<or> st = Failed"
        "messages s' = messages (updateMessageCompletion (m_id pm) st now s)"
        "\<forall>e \<in> set es. \<forall>messageId. is_execution_complete_for messageId e
            \<longrightarrow> messageId = m_id pm"
    by blast
  then show ?thesis
  proof cases
    case same
    then show ?thesis
      using d p b by (auto simp: session_inv_def processing_messages_def cnt no_completion_count)
  next
    case new
    then show ?thesis
      using d p b by (auto simp: session_inv_def processing_messages_def cnt no_completion_count)
  next
    case start
    have "distinct (map m_id (messages s'))" using d start(3) by simp
    moreover have "length (processing_messages s') \<le> 1"
      using processing_after_start [OF d, of "m_id m" now] start(1,3)
      by (simp add: getProcessingMessage_None_iff processing_messages_def)
    moreover have "\<exists>m' \<in> set (messages s'). m_id m' = i
          \<and> (m_status m' = Completed \<or> m_status m' = Failed)"
      if "0 < execution_complete_broadcasts i s'" for i
    proof -
      from that have "0 < execution_complete_broadcasts i s"
        by (simp add: cnt no_completion_count [OF start(4)])
      from b [OF this] obtain m' where m': "m' \<in> set (messages s)" "m_id m' = i"
        "m_status m' = Completed \<or> m_status m' = Failed" by blast
      then have "m' \<in> set (messages s')"
        using row_kept_by_start [OF d start(2), of m' now] start(3) by auto
      with m' show ?thesis by blast
    qed
    ultimately show ?thesis by (simp add: session_inv_def)
  next
    case finish
    note pm = getProcessingMessage_SomeD [OF finish(1)]
    have "distinct (map m_id (messages s'))" using d finish(3) by simp
    moreover have "length (processing_messages s') \<le> 1"
      using processing_after_finish [of st "m_id pm" now s] finish(2,3) p
      by (auto simp: processing_messages_def)
    moreover have "\<exists>m' \<in> set (messages s'). m_id m' = i
          \<and> (m_status m' = Completed \<or> m_status m' = Failed)"
      if "0 < execution_complete_broadcasts i s'" for i
    proof (cases "0 < execution_complete_broadcasts i s")
      case True
      from b [OF this] obtain m' where m': "m' \<in> set (messages s)" "m_id m' = i"
        "m_status m' = Completed \<or> m_status m' = Failed" by blast
      then have "m' \<in> set (messages s')"
        using row_kept_by_finish [OF d finish(1), of m' st now] finish(3) by auto
      with m' show ?thesis by blast
    next
      case False
      with that have "filter (is_execution_complete_for i) es \<noteq> []"
        by (auto simp: cnt)
      then obtain e where "e \<in> set es" "is_execution_complete_for i e"
        by (auto simp: filter_empty_conv)
      with finish(4) have i: "i = m_id pm" by blast
      have "pm\<lparr>m_status := st, m_completed_at := Some now\<rparr> \<in> set (messages s')"
        using pm finish(3) by (force simp: updateMessageCompletion_def image_iff)
      with i finish(2) show ?thesis
        by (intro bexI [of _ "pm\<lparr>m_status := st, m_completed_at := Some now\<rparr>"]) auto
    qed
    ultimately show ?thesis by (simp add: session_inv_def)
  qed
qed

lemma session_inv_run:
  "session_inv s \<Longrightarrow> run lib api env acts s = Some s' \<Longrightarrow> session_inv s'"
proof (induction acts arbitrary: s)
  case Nil
  then show ?case by simp
next
  case (Cons a acts)
  from Cons.prems(2) have f: "fresh_ids a s"
    and r: "run lib api env acts (apply_action lib api env a s) = Some s'"
    by (auto split: if_splits)
  from Cons.prems(1) transition_apply_action [OF f] have "session_inv (apply_action lib api env a s)"
    by (rule session_inv_transition)
  from Cons.IH [OF this r] show ?case .
qed

lemma session_inv_initial:
  "messages s = [] \<Longrightarrow> effects s = [] \<Longrightarrow> session_inv s"
  by (simp add: session_inv_def processing_messages_def execution_complete_broadcasts_def)

section \<open>Finished messages stay finished\<close>

lemma message_status_of_SomeD:
  "message_status_of i s = Some st \<Longrightarrow> \<exists>x \<in> set (messages s). m_id x = i \<and> m_status x = st"
  by (auto simp: message_status_of_def find_Some_iff)

lemma message_status_of_row:
  "distinct (map m_id (messages s)) \<Longrightarrow> x \<in> set (messages s) \<Longrightarrow>
   message_status_of (m_id x) s = Some (m_status x)"
  by (simp add: message_status_of_def find_by_id_distinct)

lemma message_status_of_update_other:
  assumes "i \<noteq> j"
  shows "message_status_of i (updateMessageToProcessing j now s) = message_status_of i s"
    and "message_status_of i (updateMessageCompletion j st now s) = message_status_of i s"
proof -
  have f: "find (\<lambda>x. m_id x = i) (map (\<lambda>m. if m_id m = j then f m else m) ms)
      = find (\<lambda>x. m_id x = i) ms" if "\<And>m. m_id (f m) = m_id m" for f ms
    using assms that by (induction ms) auto
  show "message_status_of i (updateMessageToProcessing j now s) = message_status_of i s"
    using f [of "\<lambda>m. m\<lparr>m_status := Processing, m_started_at := Some now\<rparr>" "messages s"]
    by (simp add: message_status_of_def updateMessageToProcessing_def)
  show "message_status_of i (updateMessageCompletion j st now s) = message_status_of i s"
    using f [of "\<lambda>m. m\<lparr>m_status := st, m_completed_at := Some now\<rparr>" "messages s"]
    by (simp add: message_status_of_def updateMessageCompletion_def)
qed

lemma find_append_found:
  "find P xs = Some x \<Longrightarrow> find P (xs @ ys) = Some x"
  by (induction xs) (auto split: if_splits)

lemma message_status_of_cong:
  "messages s' = messages s \<Longrightarrow> message_status_of i s' = message_status_of i s"
  by (simp add: message_status_of_def)

lemma finished_stable:
  assumes d: "distinct (map m_id (messages s))" and tr: "msg_transition s s'"
    and st: "message_status_of i s = Some st" and fin: "st = Completed \<or> st = Failed"
  shows "message_status_of i s' = Some st
    \<and> execution_complete_broadcasts i s' = execution_complete_broadcasts i s"
proof -
  from message_status_of_SomeD [OF st] obtain x where
    x: "x \<in> set (messages s)" "m_id x = i" "m_status x = st" by blast
  from tr obtain es where es: "effects s' = effects s @ es"
    and cases: "(messages s' = messages s \<and> no_completion_broadcast es)
         \<or> (\<exists>r. messages s' = messages s @ [r] \<and> m_status r = Pending
                 \<and> m_id r \<notin> set (map m_id (messages s)) \<and> no_completion_broadcast es)
         \<or> (\<exists>m now. getProcessingMessage s = None \<and> getNextPendingMessage s = Some m
                 \<and> messages s' = messages (updateMessageToProcessing (m_id m) now s)
                 \<and> no_completion_broadcast es)
         \<or> (\<exists>pm st now. getProcessingMessage s = Some pm \<and> (st = Completed \<or> st = Failed)
                 \<and> messages s' = messages (updateMessageCompletion (m_id pm) st now s)
                 \<and> (\<forall>e \<in> set es. \<forall>messageId. is_execution_complete_for messageId e
                        \<longrightarrow> messageId = m_id pm))"
    unfolding msg_transition_def by blast
  note cnt = count_append [OF es]
  from cases consider
      (same) "messages s' = messages s" "no_completion_broadcast es"
    | (new) r where "messages s' = messages s @ [r]" "no_completion_broadcast es"
    | (start) m now where "getNextPendingMessage s = Some m"
        "messages s' = messages (updateMessageToProcessing (m_id m) now s)"
        "no_completion_broadcast es"
    | (finish) pm st' now where "getProcessingMessage s = Some pm"
        "messages s' = messages (updateMessageCompletion (m_id pm) st' now s)"
        "\<forall>e \<in> set es. \<forall>messageId. is_execution_complete_for messageId e
            \<longrightarrow> messageId = m_id pm"
    by blast
  then show ?thesis
  proof cases
    case same
    then show ?thesis using st by (simp add: cnt no_completion_count message_status_of_def)
  next
    case new
    from st have "find (\<lambda>x. m_id x = i) (messages s @ [r]) = find (\<lambda>x. m_id x = i) (messages s)"
      by (auto simp: message_status_of_def find_append_found)
    with new st show ?thesis by (simp add: cnt no_completion_count message_status_of_def)
  next
    case start
    from getNextPendingMessage_SomeD [OF start(1)] x fin same_id_same_row [OF d]
    have "i \<noteq> m_id m" by (metis message_status.distinct(3,5))
    from message_status_of_update_other(1) [OF this, of now s] start st show ?thesis
      by (simp add: cnt no_completion_count
          message_status_of_cong [OF start(2), of i])
  next
    case finish
    from getProcessingMessage_SomeD [OF finish(1)] x fin same_id_same_row [OF d]
    have ne: "i \<noteq> m_id pm" by (metis message_status.distinct(7,9,11))
    have "filter (is_execution_complete_for i) es = []"
      using finish(3) ne by (auto simp: filter_empty_conv)
    with message_status_of_update_other(2) [OF ne, of st' now s] finish st show ?thesis
      by (simp add: cnt message_status_of_cong [OF finish(2), of i])
  qed
qed

lemma distinct_transition:
  "distinct (map m_id (messages s)) \<Longrightarrow> msg_transition s s' \<Longrightarrow> distinct (map m_id (messages s'))"
  unfolding msg_transition_def by auto

lemma finished_stable_run:
  assumes "distinct (map m_id (messages s))" "message_status_of i s = Some st"
    "st = Completed \<or> st = Failed" "run lib api env acts s = Some s'"
  shows "distinct (map m_id (messages s')) \<and> message_status_of i s' = Some st
    \<and> execution_complete_broadcasts i s' = execution_complete_broadcasts i s"
  using assms
proof (induction acts arbitrary: s)
  case Nil
  then show ?case by simp
next
  case (Cons a acts)
  from Cons.prems(4) have f: "fresh_ids a s"
    and r: "run lib api env acts (apply_action lib api env a s) = Some s'"
    by (auto split: if_splits)
  note tr = transition_apply_action [OF f, of lib api env]
  from finished_stable [OF Cons.prems(1) tr Cons.prems(2,3)]
    Cons.IH [OF distinct_transition [OF Cons.prems(1) tr] _ Cons.prems(3) r]
  show ?case by simp
qed


lemma processing_after_start_eq:
  assumes d: "distinct (map m_id (messages s))" and n: "getProcessingMessage s = None"
    and m: "m \<in> set (messages s)"
  shows "processing_messages (updateMessageToProcessing (m_id m) now s)
           = [m\<lparr>m_status := Processing, m_started_at := Some now\<rparr>]"
proof -
  have "distinct (map m_id ms) \<Longrightarrow> \<forall>x \<in> set ms. m_status x \<noteq> Processing \<Longrightarrow> m \<in> set ms \<Longrightarrow>
      filter (\<lambda>x. m_status x = Processing)
        (map (\<lambda>x. if m_id x = m_id m then x\<lparr>m_status := Processing, m_started_at := Some now\<rparr>
                  else x) ms)
      = [m\<lparr>m_status := Processing, m_started_at := Some now\<rparr>]" for ms
  proof (induction ms)
    case Nil
    then show ?case by simp
  next
    case (Cons a ms)
    show ?case
    proof (cases "a = m")
      case True
      with Cons.prems have "\<forall>x \<in> set ms. m_id x \<noteq> m_id m" by (auto simp: image_iff)
      with Cons.prems(2) have "filter (\<lambda>x. m_status x = Processing)
        (map (\<lambda>x. if m_id x = m_id m then x\<lparr>m_status := Processing, m_started_at := Some now\<rparr>
                  else x) ms) = []"
        by (auto simp: filter_empty_conv)
      with True show ?thesis by simp
    next
      case False
      with Cons.prems have "m \<in> set ms" "m_id a \<noteq> m_id m" by (auto simp: image_iff)
      with Cons show ?thesis by simp
    qed
  qed
  moreover from n have "\<forall>x \<in> set (messages s). m_status x \<noteq> Processing"
    by (simp add: getProcessingMessage_def find_None_iff)
  ultimately show ?thesis using d m
    by (simp add: processing_messages_def updateMessageToProcessing_def)
qed

text \<open>
  C1. In every state that a run reaches from a session without messages, at most one
  message is processing. \<^verbatim>\<open>processMessageQueue\<close> leaves the state as it is (it marks
  nothing and sends nothing) when a message is processing; when none is, the messages
  processing afterwards are the oldest pending message alone if there is one and the
  sandbox socket is connected, and none otherwise. (A whole \<^verbatim>\<open>processSandboxEvent\<close> or
  \<^verbatim>\<open>handleEnqueuePrompt\<close> is the action of its first part followed by the action of
  \<^verbatim>\<open>processMessageQueue\<close>.)
\<close>

theorem single_flight:
  "(messages s0 = [] \<and> effects s0 = [] \<and> run lib api env acts s0 = Some s
      \<longrightarrow> length (processing_messages s) \<le> 1)
   \<and> (getProcessingMessage s \<noteq> None \<longrightarrow> processMessageQueue api now s = s)
   \<and> (distinct (map m_id (messages s)) \<and> getProcessingMessage s = None \<longrightarrow>
        processing_messages (processMessageQueue api now s)
          = (case getNextPendingMessage s of
               None \<Rightarrow> []
             | Some m \<Rightarrow>
                (case sandbox_socket s of
                   None \<Rightarrow> []
                 | Some sandboxWs \<Rightarrow> [m\<lparr>m_status := Processing, m_started_at := Some now\<rparr>])))"
proof (intro conjI impI)
  assume "messages s0 = [] \<and> effects s0 = [] \<and> run lib api env acts s0 = Some s"
  then have "session_inv s"
    using session_inv_run [OF session_inv_initial] by blast
  then show "length (processing_messages s) \<le> 1" by (simp add: session_inv_def)
next
  assume "getProcessingMessage s \<noteq> None"
  then show "processMessageQueue api now s = s"
    by (auto simp: processMessageQueue_def)
next
  assume a: "distinct (map m_id (messages s)) \<and> getProcessingMessage s = None"
  then have none: "processing_messages s = []"
    by (simp add: getProcessingMessage_None_iff)
  show "processing_messages (processMessageQueue api now s)
          = (case getNextPendingMessage s of
               None \<Rightarrow> []
             | Some m \<Rightarrow>
                (case sandbox_socket s of
                   None \<Rightarrow> []
                 | Some sandboxWs \<Rightarrow> [m\<lparr>m_status := Processing, m_started_at := Some now\<rparr>]))"
  proof (cases "getNextPendingMessage s")
    case None
    with a none show ?thesis by (simp add: processMessageQueue_def)
  next
    case (Some m)
    note m = getNextPendingMessage_SomeD [OF Some]
    show ?thesis
    proof (cases "sandbox_socket s")
      case None
      with a Some none show ?thesis
        by (simp add: processMessageQueue_def processing_messages_def)
    next
      case (Some ws)
      have "processing_messages (processMessageQueue api now s)
          = processing_messages (updateMessageToProcessing (m_id m) now s)"
        using a Some \<open>getNextPendingMessage s = Some m\<close>
        by (simp add: processMessageQueue_def Let_def processing_messages_def)
      with processing_after_start_eq [of s m now] a m Some \<open>getNextPendingMessage s = Some m\<close>
      show ?thesis by simp
    qed
  qed
qed


lemmas eval_defs = handleEnqueuePrompt_store_def getParticipantByUserId_def example_state_def
  example_body_def example_participant_def example_api_def example_session_def
  createMessage_def writeUserMessageEvent_def createEvent_def emit_def Let_def truthy_def
  js_or_def getSession_def validateReasoningEffort_def processMessageQueue_def
  getProcessingMessage_def getNextPendingMessage_def updateMessageToProcessing_def
  getParticipantById_def nullish_def

theorem single_flight_witness:
  "(messages (example_state [] (Some 1)) = [] \<and> effects (example_state [] (Some 1)) = []
     \<and> run ascii_strings example_api example_env
          [A_enqueue ''p9'' ''m1'' ''e1'' 1 example_body, A_process_queue 2]
          (example_state [] (Some 1)) = Some example_running)
   \<and> length (processing_messages example_running) \<le> 1
   \<and> getProcessingMessage example_running \<noteq> None
   \<and> processMessageQueue example_api 9 example_running = example_running
   \<and> (distinct (map m_id (messages (example_state
          [example_message ''m1'' Completed, example_message ''m2'' Pending,
           example_message ''m3'' Pending] (Some 1))))
       \<and> getProcessingMessage (example_state
          [example_message ''m1'' Completed, example_message ''m2'' Pending,
           example_message ''m3'' Pending] (Some 1)) = None)
   \<and> processing_messages (processMessageQueue example_api 9 (example_state
          [example_message ''m1'' Completed, example_message ''m2'' Pending,
           example_message ''m3'' Pending] (Some 1)))
       = [(example_message ''m2'' Pending)\<lparr>m_status := Processing, m_started_at := Some 9\<rparr>]"
proof -
  let ?s0 = "example_state [] (Some 1)"
  let ?acts = "[A_enqueue ''p9'' ''m1'' ''e1'' 1 example_body, A_process_queue 2]"
  let ?t = "example_state [example_message ''m1'' Completed, example_message ''m2'' Pending,
           example_message ''m3'' Pending] (Some 1)"
  have h1: "messages ?s0 = [] \<and> effects ?s0 = []
     \<and> run ascii_strings example_api example_env ?acts ?s0 = Some example_running"
    by (simp add: example_running_def) (simp add: example_state_def)
  have h2: "getProcessingMessage example_running \<noteq> None"
    by (simp add: example_running_def eval_defs)
  have h3: "distinct (map m_id (messages ?t)) \<and> getProcessingMessage ?t = None"
    by (simp add: example_state_def example_message_def getProcessingMessage_def)
  have n: "getNextPendingMessage ?t = Some (example_message ''m2'' Pending)"
    "sandbox_socket ?t = Some 1"
    by (simp_all add: example_state_def example_message_def getNextPendingMessage_def)
  from single_flight [where ?s0.0 = ?s0 and api = example_api and env = example_env
      and acts = ?acts and s = example_running and now = 9] h1 h2
  have a: "length (processing_messages example_running) \<le> 1"
    "processMessageQueue example_api 9 example_running = example_running"
    by blast+
  from single_flight [where ?s0.0 = ?s0 and api = example_api and env = example_env
      and acts = ?acts and s = ?t and now = 9] h3
  have "processing_messages (processMessageQueue example_api 9 ?t)
      = (case getNextPendingMessage ?t of
               None \<Rightarrow> []
             | Some m \<Rightarrow>
                (case sandbox_socket ?t of
                   None \<Rightarrow> []
                 | Some sandboxWs \<Rightarrow> [m\<lparr>m_status := Processing, m_started_at := Some 9\<rparr>]))"
    by blast
  from this [unfolded n]
  have b: "processing_messages (processMessageQueue example_api 9 ?t)
      = [(example_message ''m2'' Pending)\<lparr>m_status := Processing, m_started_at := Some 9\<rparr>]"
    by simp
  from h1 h2 h3 a b show ?thesis by blast
qed

lemma processMessageQueue_effects:
  "\<exists>es. effects (processMessageQueue api now s) = effects s @ es
     \<and> (\<forall>e \<in> set es. (\<forall>i b. e \<noteq> Notify_slack_bot i b) \<and> (\<forall>ev. e \<noteq> Broadcast (Sandbox_event ev)))"
  by (simp add: processMessageQueue_def Let_def split: option.splits)

lemma stopExecution_processing:
  assumes "getProcessingMessage s = Some m"
  shows "messages (stopExecution now s) = messages (updateMessageCompletion (m_id m) Failed now s)"
    and "effects (stopExecution now s) = effects s @
       [Broadcast (Sandbox_event (synthetic_execution_complete (m_id m))),
        Notify_slack_bot (m_id m) False, Broadcast (Processing_status False)]
       @ (case sandbox_socket s of Some sandboxWs \<Rightarrow> [Send_sandbox Stop] | None \<Rightarrow> [])"
  using assms
  by (simp_all add: stopExecution_def Let_def updateMessageCompletion_def split: option.splits)

lemma message_status_of_completion:
  assumes "distinct (map m_id (messages s))" "m \<in> set (messages s)"
  shows "message_status_of (m_id m) (updateMessageCompletion (m_id m) st now s) = Some st"
proof -
  have "find (\<lambda>x. m_id x = m_id m)
          (map (\<lambda>x. if m_id x = m_id m then x\<lparr>m_status := st, m_completed_at := Some now\<rparr> else x)
             (messages s))
        = map_option (\<lambda>x. if m_id x = m_id m then x\<lparr>m_status := st, m_completed_at := Some now\<rparr>
                              else x) (find (\<lambda>x. m_id x = m_id m) (messages s))"
    by (rule find_by_id_map) simp
  with find_by_id_distinct [OF assms] show ?thesis
    by (simp add: message_status_of_def updateMessageCompletion_def)
qed

text \<open>
  C3. Let a message be processing when \<^verbatim>\<open>stopExecution\<close> runs, in a state reached by a
  run. Then the message is failed and one \<^verbatim>\<open>execution_complete\<close> broadcast has been sent
  for it. Whatever the session does next, when the sandbox's own \<^verbatim>\<open>execution_complete\<close>
  event for that message arrives, the handler only stores the event, triggers the
  snapshot, refreshes the idle timer and runs \<^verbatim>\<open>processMessageQueue\<close>: it sends no
  completion broadcast and no callback notification, the message stays failed, and the
  number of \<^verbatim>\<open>execution_complete\<close> broadcasts for it stays one.
\<close>

theorem stop_then_late_completion:
  assumes start: "messages s0 = []" "effects s0 = []" "run lib api env before s0 = Some s"
    and processing: "getProcessingMessage s = Some m"
    and between: "run lib api env between (stopExecution now s) = Some s2"
    and late: "ev_type event = ''execution_complete''" "ev_messageId event = Some (m_id m)"
  shows "message_status_of (m_id m) (stopExecution now s) = Some Failed
    \<and> execution_complete_broadcasts (m_id m) (stopExecution now s) = 1
    \<and> processSandboxEvent lib api now' eventId queueNow event s2
        = processMessageQueue api queueNow
            (emit [Trigger_snapshot ''execution_complete'', Update_last_activity now',
                   Schedule_inactivity_check]
               (createEvent \<lparr>e_id = eventId, e_type = ''execution_complete'', e_data = event,
                              e_message_id = Some (m_id m), e_created_at = now'\<rparr> s2))
    \<and> (\<exists>es. effects (processSandboxEvent lib api now' eventId queueNow event s2)
           = effects s2 @ [Trigger_snapshot ''execution_complete'', Update_last_activity now',
                          Schedule_inactivity_check] @ es
         \<and> (\<forall>e \<in> set es. (\<forall>i b. e \<noteq> Notify_slack_bot i b)
                \<and> (\<forall>ev. e \<noteq> Broadcast (Sandbox_event ev))))
    \<and> message_status_of (m_id m) (processSandboxEvent lib api now' eventId queueNow event s2)
        = Some Failed
    \<and> execution_complete_broadcasts (m_id m)
          (processSandboxEvent lib api now' eventId queueNow event s2) = 1"
proof -
  let ?s1 = "stopExecution now s"
  let ?r = "emit [Trigger_snapshot ''execution_complete'', Update_last_activity now',
                   Schedule_inactivity_check]
               (createEvent \<lparr>e_id = eventId, e_type = ''execution_complete'', e_data = event,
                              e_message_id = Some (m_id m), e_created_at = now'\<rparr> s2)"
  let ?s3 = "processSandboxEvent lib api now' eventId queueNow event s2"
  have inv: "session_inv s"
    using session_inv_run [OF session_inv_initial [OF start(1,2)] start(3)] .
  then have d: "distinct (map m_id (messages s))" by (simp add: session_inv_def)
  note m = getProcessingMessage_SomeD [OF processing]
  have zero: "execution_complete_broadcasts (m_id m) s = 0"
  proof (rule ccontr)
    assume "execution_complete_broadcasts (m_id m) s \<noteq> 0"
    with inv obtain x where x: "x \<in> set (messages s)" "m_id x = m_id m"
      "m_status x = Completed \<or> m_status x = Failed"
      by (auto simp: session_inv_def)
    from same_id_same_row [OF d x(1) m [THEN conjunct1] x(2)] have "x = m" .
    with x(3) m show False by auto
  qed
  have st1: "message_status_of (m_id m) ?s1 = Some Failed"
    using message_status_of_completion [OF d m [THEN conjunct1], of Failed now]
    by (simp add: message_status_of_def stopExecution_processing(1) [OF processing])
  have c1: "execution_complete_broadcasts (m_id m) ?s1 = 1"
    using zero
    by (simp add: execution_complete_broadcasts_def stopExecution_processing(2) [OF processing]
        synthetic_execution_complete_def split: option.splits)
  have d1: "distinct (map m_id (messages ?s1))"
    using d by (simp add: stopExecution_processing(1) [OF processing])
  from finished_stable_run [OF d1 st1 _ between]
  have d2: "distinct (map m_id (messages s2))"
    and st2: "message_status_of (m_id m) s2 = Some Failed"
    and c2: "execution_complete_broadcasts (m_id m) s2 = 1"
    by (simp_all add: c1)
  have other: "map_option m_id (getProcessingMessage s2) \<noteq> Some (m_id m)"
  proof
    assume "map_option m_id (getProcessingMessage s2) = Some (m_id m)"
    then obtain pm where pm: "getProcessingMessage s2 = Some pm" "m_id pm = m_id m" by auto
    from getProcessingMessage_SomeD [OF pm(1)] message_status_of_row [OF d2, of pm] pm(2) st2
    show False by simp
  qed
  have rec: "processSandboxEvent_record lib now' eventId event s2 = ?r"
  proof (cases "getProcessingMessage s2")
    case None
    with late show ?thesis
      by (simp add: processSandboxEvent_record_def Let_def nullish_def)
  next
    case (Some pm)
    with other have "m_id pm \<noteq> m_id m" by simp
    with late Some show ?thesis
      by (simp add: processSandboxEvent_record_def Let_def nullish_def)
  qed
  have eq: "?s3 = processMessageQueue api queueNow ?r"
    using late by (simp add: processSandboxEvent_def rec)
  have str: "message_status_of (m_id m) ?r = Some Failed"
    and cr: "execution_complete_broadcasts (m_id m) ?r = 1"
    and dr: "distinct (map m_id (messages ?r))"
    using st2 c2 d2 by (simp_all add: message_status_of_def execution_complete_broadcasts_def)
  from finished_stable [OF dr transition_processMessageQueue str, of api queueNow]
  have st3: "message_status_of (m_id m) ?s3 = Some Failed"
    and c3: "execution_complete_broadcasts (m_id m) ?s3 = 1"
    by (simp_all add: eq cr)
  from processMessageQueue_effects [of api queueNow ?r]
  have eff: "\<exists>es. effects ?s3
           = effects s2 @ [Trigger_snapshot ''execution_complete'', Update_last_activity now',
                          Schedule_inactivity_check] @ es
         \<and> (\<forall>e \<in> set es. (\<forall>i b. e \<noteq> Notify_slack_bot i b)
                \<and> (\<forall>ev. e \<noteq> Broadcast (Sandbox_event ev)))"
    by (simp add: eq)
  from st1 c1 eq eff st3 c3 show ?thesis by blast
qed

theorem stop_then_late_completion_witness:
  "(messages (example_state [] (Some 1)) = [] \<and> effects (example_state [] (Some 1)) = []
     \<and> run ascii_strings example_api example_env
          [A_enqueue ''p9'' ''m1'' ''e1'' 1 example_body, A_process_queue 2]
          (example_state [] (Some 1)) = Some example_running
     \<and> getProcessingMessage example_running
          = Some ((example_message ''m1'' Processing)\<lparr>m_started_at := Some 2\<rparr>)
     \<and> run ascii_strings example_api example_env
          [A_enqueue ''p9'' ''m2'' ''e2'' 6 example_body, A_process_queue 7]
          (stopExecution 5 example_running) = Some example_next_running
     \<and> ev_type (example_event ''execution_complete'' (Some ''m1'') None) = ''execution_complete''
     \<and> ev_messageId (example_event ''execution_complete'' (Some ''m1'') None) = Some ''m1'')
   \<and> message_status_of ''m1'' (stopExecution 5 example_running) = Some Failed
   \<and> message_status_of ''m1''
        (processSandboxEvent ascii_strings example_api 8 ''e3'' 8
           (example_event ''execution_complete'' (Some ''m1'') None) example_next_running)
       = Some Failed
   \<and> execution_complete_broadcasts ''m1''
        (processSandboxEvent ascii_strings example_api 8 ''e3'' 8
           (example_event ''execution_complete'' (Some ''m1'') None) example_next_running) = 1"
proof -
  let ?s0 = "example_state [] (Some 1)"
  let ?m = "(example_message ''m1'' Processing)\<lparr>m_started_at := Some 2\<rparr>"
  let ?ev = "example_event ''execution_complete'' (Some ''m1'') None"
  have i: "m_id ?m = ''m1''" by (simp add: example_message_def)
  have h1: "messages ?s0 = []" and h2: "effects ?s0 = []"
    by (simp_all add: example_state_def)
  have h3: "run ascii_strings example_api example_env
          [A_enqueue ''p9'' ''m1'' ''e1'' 1 example_body, A_process_queue 2] ?s0
        = Some example_running"
    by (simp add: example_running_def) (simp add: example_state_def)
  have h4: "getProcessingMessage example_running = Some ?m"
    by (simp add: example_running_def eval_defs example_message_def)
  have f: "''m2'' \<notin> set (map m_id (messages (stopExecution 5 example_running)))"
    by (simp add: example_running_def eval_defs stopExecution_def updateMessageCompletion_def)
  have h5: "run ascii_strings example_api example_env
          [A_enqueue ''p9'' ''m2'' ''e2'' 6 example_body, A_process_queue 7]
          (stopExecution 5 example_running) = Some example_next_running"
    using f by (simp add: example_next_running_def)
  have h6: "ev_type ?ev = ''execution_complete''" and h7: "ev_messageId ?ev = Some (m_id ?m)"
    by (simp_all add: example_event_def example_message_def)
  from stop_then_late_completion [OF h1 h2 h3 h4 h5 h6 h7, of 8 "''e3''" 8]
  have "message_status_of ''m1'' (stopExecution 5 example_running) = Some Failed
   \<and> message_status_of ''m1''
        (processSandboxEvent ascii_strings example_api 8 ''e3'' 8 ?ev example_next_running) = Some Failed
   \<and> execution_complete_broadcasts ''m1''
        (processSandboxEvent ascii_strings example_api 8 ''e3'' 8 ?ev example_next_running) = 1"
    unfolding i by blast
  with h1 h2 h3 h4 h5 h6 h7 [unfolded i] show ?thesis by blast
qed

section \<open>The manual pull-request fallback\<close>


lemma frame_updateSessionBranch [simp]:
  "artifacts (updateSessionBranch i b s) = artifacts s"
  "sandbox_socket (updateSessionBranch i b s) = sandbox_socket s"
  "participants (updateSessionBranch i b s) = participants s"
  by (simp_all add: updateSessionBranch_def)




lemma getExistingManualBranchArtifact_new:
  "getExistingManualBranchArtifact
     [\<lparr>a_id = artifactId, a_type = ''branch'', a_url = Some url,
       a_metadata = Some (Some (manual_metadata env headBranch baseBranch url)),
       a_created_at = now\<rparr>] headBranch
   = Some (\<lparr>a_id = artifactId, a_type = ''branch'', a_url = Some url,
             a_metadata = Some (Some (manual_metadata env headBranch baseBranch url)),
             a_created_at = now\<rparr>, manual_metadata env headBranch baseBranch url)"
  by (simp add: parseArtifactMetadata_def manual_metadata_def)

lemma getExistingManualBranchArtifact_no_pr:
  "getExistingManualBranchArtifact arts headBranch = Some found \<Longrightarrow>
   fst found \<in> set arts \<and> a_type (fst found) = ''branch''"
  by (induction arts headBranch rule: getExistingManualBranchArtifact.induct)
    (auto split: if_splits option.splits)




lemmas pr_eval_defs = handleCreatePR_def handleCreatePR_begin_def getPromptingParticipantForPR_def
  handleCreatePR_after_push_def resolvePromptingUserAuthForPR_def
  buildManualPrFallbackResponse_def pushBranchToRemote_def getSession_def
  getProcessingMessage_def getParticipantById_def listArtifacts_def updateSessionBranch_def
  createArtifact_def emit_def Let_def truthy_def js_or_def example_state_def example_env_def
  example_message_def example_participant_def example_session_def example_pr_body_def
  parseArtifactMetadata_def manual_metadata_def example_pr_state_def example_manual_url_def
  example_manual_state_def no_usable_credential_def


section \<open>Concurrent create-PR requests\<close>

lemma handleCreatePR_begin_rejects:
  assumes "getSession s = Some sess" "getPromptingParticipantForPR s = Inr p"
    and "find (\<lambda>artifact. a_type artifact = ''pr'') (artifacts s) \<noteq> None"
  shows "handleCreatePR_begin env body s = Inl already_created"
  using assms by (simp add: handleCreatePR_begin_def Let_def listArtifacts_def)

lemma handleCreatePR_after_push_rejects:
  assumes "find (\<lambda>artifact. a_type artifact = ''pr'') (artifacts s) \<noteq> None"
  shows "handleCreatePR_after_push env l Push_success artifactId now s
     = (Inl already_created, updateSessionBranch (s_id (l_session l)) (l_headBranch l) s)"
    and "artifacts (snd (handleCreatePR_after_push env l Push_success artifactId now s))
     = artifacts s"
  using assms by (simp_all add: handleCreatePR_after_push_def Let_def listArtifacts_def)

text \<open>
  C2. At most one artifact of type \<^verbatim>\<open>pr\<close> is to exist, also when create-PR requests
  interleave. Both checks reject a request once a pull-request artifact is stored (the two
  lemmas above), but the handler awaits the decryption of the token and the provider's
  \<^verbatim>\<open>createPullRequest\<close> between its second check and \<^verbatim>\<open>createArtifact\<close>. Two requests
  for the head branches \<^verbatim>\<open>fix-a\<close> and \<^verbatim>\<open>fix-b\<close>, the second passing its checks while the
  first awaits the provider, both pass both checks and both store a pull-request artifact.
\<close>

theorem create_pr_race_two_pr_artifacts:
  "handleCreatePR_begin example_env (example_pr_body ''fix-a'') example_oauth_state
     = Inr (example_locals ''fix-a'')
   \<and> handleCreatePR_begin example_env (example_pr_body ''fix-b'') example_oauth_state
     = Inr (example_locals ''fix-b'')
   \<and> pushBranchToRemote ascii_strings 1 ''fix-a'' (l_pushSpec (example_locals ''fix-a'')) example_oauth_state
     = (Some Push_success, example_oauth_state)
   \<and> pushBranchToRemote ascii_strings 2 ''fix-b'' (l_pushSpec (example_locals ''fix-b'')) example_oauth_state
     = (Some Push_success, example_oauth_state)
   \<and> handleCreatePR_after_push example_env (example_locals ''fix-a'') Push_success ''a1'' 10
       example_oauth_state
     = (Inr ''token'', updateSessionBranch ''s1'' ''fix-a'' example_oauth_state)
   \<and> handleCreatePR_after_push example_env (example_locals ''fix-b'') Push_success ''a2'' 11
       (updateSessionBranch ''s1'' ''fix-a'' example_oauth_state)
     = (Inr ''token'', updateSessionBranch ''s1'' ''fix-b''
                        (updateSessionBranch ''s1'' ''fix-a'' example_oauth_state))
   \<and> map a_type (artifacts (snd
         (handleCreatePR_create example_env (example_pr_body ''fix-b'') (example_locals ''fix-b'')
            ''token'' ''a2'' 13
            (snd (handleCreatePR_create example_env (example_pr_body ''fix-a'')
                    (example_locals ''fix-a'') ''token'' ''a1'' 12
                    (updateSessionBranch ''s1'' ''fix-b''
                       (updateSessionBranch ''s1'' ''fix-a'' example_oauth_state)))))))
     = [''pr'', ''pr'']"
  by (simp add: pr_eval_defs example_oauth_state_def example_locals_def
      handleCreatePR_create_def isGitHubTokenExpired_def)

end
